theory Spec2Isabelle
  imports Complex_Main "HOL-Library.AList" "HOL-Library.Sublist"
begin

section \<open>Python values\<close>

text \<open>
  The loader moves decoded JSON documents and database rows around as Python values.
  A dictionary is an association list in insertion order (its keys are distinct, as a
  Python dictionary's are); integers are unbounded; a float is the rational it denotes
  (rounding is not modelled); \<open>JTime\<close> is a \<open>datetime\<close> instant in microseconds.
\<close>

datatype json =
    JNull
  | JBool bool
  | JInt int
  | JFloat rat
  | JStr string
  | JTime int
  | JList "json list"
  | JDict "(string \<times> json) list"

datatype error =
    KeyError string
  | TypeError
  | NameError string
  | IndexError
  | AttributeError
  | DatabaseError string

text \<open>Truth value testing, as \<open>if x:\<close> and \<open>not x\<close> do it.\<close>

fun truthy :: "json \<Rightarrow> bool" where
  "truthy JNull = False"
| "truthy (JBool b) = b"
| "truthy (JInt i) = (i \<noteq> 0)"
| "truthy (JFloat r) = (r \<noteq> 0)"
| "truthy (JStr s) = (s \<noteq> [])"
| "truthy (JTime t) = True"
| "truthy (JList xs) = (xs \<noteq> [])"
| "truthy (JDict d) = (d \<noteq> [])"

text \<open>\<open>x[key]\<close> with a string key: only a dictionary can be subscripted that way.\<close>

fun subscript :: "json \<Rightarrow> string \<Rightarrow> error + json" where
  "subscript (JDict d) key =
     (case map_of d key of None \<Rightarrow> Inl (KeyError key) | Some v \<Rightarrow> Inr v)"
| "subscript _ key = Inl TypeError"

text \<open>\<open>x[key] = v\<close>: an existing key keeps its place, a new key goes last.\<close>

fun set_item :: "json \<Rightarrow> string \<Rightarrow> json \<Rightarrow> error + json" where
  "set_item (JDict d) key v = Inr (JDict (AList.update key v d))"
| "set_item _ key v = Inl TypeError"

text \<open>\<open>key in x\<close> for a string \<open>key\<close>.\<close>

fun contains :: "string \<Rightarrow> json \<Rightarrow> error + bool" where
  "contains key (JDict d) = Inr (key \<in> set (map fst d))"
| "contains key (JList xs) = Inr (JStr key \<in> set xs)"
| "contains key (JStr s) = Inr (sublist key s)"
| "contains key _ = Inl TypeError"

text \<open>\<open>for x in v\<close>: the sequence a \<open>for\<close> loop runs over.\<close>

fun iterate :: "json \<Rightarrow> error + json list" where
  "iterate (JList xs) = Inr xs"
| "iterate (JDict d) = Inr (map (\<lambda>kv. JStr (fst kv)) d)"
| "iterate (JStr s) = Inr (map (\<lambda>c. JStr [c]) s)"
| "iterate _ = Inl TypeError"

text \<open>\<open>x > 0\<close> and \<open>x + 1\<close> on a decoded number.\<close>

fun greater_zero :: "json \<Rightarrow> error + bool" where
  "greater_zero (JInt i) = Inr (i > 0)"
| "greater_zero (JBool b) = Inr b"
| "greater_zero (JFloat r) = Inr (r > 0)"
| "greater_zero _ = Inl TypeError"

fun plus_one :: "json \<Rightarrow> error + json" where
  "plus_one (JInt i) = Inr (JInt (i + 1))"
| "plus_one (JBool b) = Inr (JInt ((if b then 1 else 0) + 1))"
| "plus_one (JFloat r) = Inr (JFloat (r + 1))"
| "plus_one _ = Inl TypeError"

text \<open>\<open>sep.join(xs)\<close>.\<close>

fun join :: "string \<Rightarrow> string list \<Rightarrow> string" where
  "join sep [] = []"
| "join sep [x] = x"
| "join sep (x # y # ys) = x @ sep @ join sep (y # ys)"

definition nl :: string where
  "nl = [CHR 0x0A]"

definition sq :: string where
  "sq = [CHR 0x27]"

section \<open>The outside world\<close>

text \<open>
  Everything the job does to its surroundings is recorded, in order, in a trace:
  statements sent through a cursor, commits, queries read into a data frame, HTTP
  requests (path and query parameters, before URL encoding) and sleeps. Console output
  is left out.
\<close>

datatype action =
    Execute string "json list option"
  | ExecuteValues string "json list list"
  | Commit
  | ReadSql string
  | HttpGet string "(string \<times> json) list"
  | Sleep nat

text \<open>
  The state of the process: the trace so far and \<open>Database.columns\<close>, the cache of
  column names per table.
\<close>

record world =
  trace :: "action list"
  columns :: "string \<rightharpoonup> json list"

text \<open>
  What the program reads from outside, and the library functions it calls, are
  parameters: the configuration (\<open>PG_SCHEMA\<close>, \<open>EVENTBRITE_OAUTH\<close>, \<open>EVENTBRITE_ORG\<close>);
  the database's answer to a query and the remote API's answer to a request (status
  code and decoded body), each of which may depend on everything done so far; whether
  the database accepts a statement sent through a cursor (\<open>None\<close>) or refuses it with
  an error; the two clocks; and Python's \<open>str\<close> and \<open>float\<close> and \<open>arrow.get(...).datetime\<close>.
  A data frame is the list of its rows, each row a mapping from column name to value.
\<close>

record env =
  pg_schema :: string
  eventbrite_oauth :: string
  eventbrite_org :: string
  read_sql :: "action list \<Rightarrow> string \<Rightarrow> (string \<times> json) list list"
  requests_get :: "action list \<Rightarrow> string \<Rightarrow> (string \<times> json) list \<Rightarrow> nat \<times> json"
  cursor_execute :: "action list \<Rightarrow> action \<Rightarrow> error option"
  now :: "action list \<Rightarrow> int"
  utcnow :: "action list \<Rightarrow> int"
  str_of :: "json \<Rightarrow> string"
  float_of :: "json \<Rightarrow> error + json"
  arrow_get :: "json \<Rightarrow> error + json"

text \<open>\<open>'%s' % x\<close> and \<open>'{}'.format(x)\<close>: a string is inserted as it is.\<close>

definition py_str :: "env \<Rightarrow> json \<Rightarrow> string" where
  "py_str E v = (case v of JStr s \<Rightarrow> s | _ \<Rightarrow> str_of E v)"

text \<open>
  A statement of the program either returns a value or raises, and leaves a new state
  either way.
\<close>

type_synonym 'a io = "world \<Rightarrow> (error + 'a) \<times> world"

definition ret :: "'a \<Rightarrow> 'a io" where
  "ret x = (\<lambda>w. (Inr x, w))"

definition raise :: "error \<Rightarrow> 'a io" where
  "raise e = (\<lambda>w. (Inl e, w))"

definition of_result :: "error + 'a \<Rightarrow> 'a io" where
  "of_result r = (\<lambda>w. (r, w))"

definition io_bind :: "'a io \<Rightarrow> ('a \<Rightarrow> 'b io) \<Rightarrow> 'b io" where
  "io_bind m f = (\<lambda>w. case m w of (Inl e, w') \<Rightarrow> (Inl e, w') | (Inr x, w') \<Rightarrow> f x w')"

definition emit :: "action \<Rightarrow> unit io" where
  "emit a = (\<lambda>w. (Inr (), w\<lparr>trace := trace w @ [a]\<rparr>))"

text \<open>
  \<open>cursor.execute\<close>: the statement is sent, and the error of the database, if it
  refuses the statement, is raised.
\<close>

definition execute :: "env \<Rightarrow> action \<Rightarrow> unit io" where
  "execute E a =
     (\<lambda>w. case cursor_execute E (trace w) a of
        None \<Rightarrow> (Inr (), w\<lparr>trace := trace w @ [a]\<rparr>)
      | Some e \<Rightarrow> (Inl e, w\<lparr>trace := trace w @ [a]\<rparr>))"

fun for_each :: "('a \<Rightarrow> unit io) \<Rightarrow> 'a list \<Rightarrow> unit io" where
  "for_each body [] = ret ()"
| "for_each body (x # xs) = io_bind (body x) (\<lambda>_. for_each body xs)"

section \<open>database.py\<close>

definition MATERIALIZED_VIEWS :: "string list" where
  "MATERIALIZED_VIEWS = [''event_aggregates'', ''members_view'', ''participants'']"

text \<open>\<open>pd.read_sql(sql, self.connection)\<close>\<close>

definition pd_read_sql :: "env \<Rightarrow> string \<Rightarrow> (string \<times> json) list list io" where
  "pd_read_sql E sql = (\<lambda>w. (Inr (read_sql E (trace w) sql), w\<lparr>trace := trace w @ [ReadSql sql]\<rparr>))"

text \<open>\<open>df[name]\<close>: the values of one column, row by row.\<close>

fun df_column :: "string \<Rightarrow> (string \<times> json) list list \<Rightarrow> error + json list" where
  "df_column name [] = Inr []"
| "df_column name (r # rs) =
     (case map_of r name of
        None \<Rightarrow> Inl (KeyError name)
      | Some v \<Rightarrow> (case df_column name rs of Inl e \<Rightarrow> Inl e | Inr vs \<Rightarrow> Inr (v # vs)))"

definition run_query :: "env \<Rightarrow> string \<Rightarrow> bool \<Rightarrow> unit io" where
  "run_query E sql commit =
     io_bind (execute E (Execute sql None)) (\<lambda>_. if commit then emit Commit else ret ())"

definition refresh_view :: "env \<Rightarrow> string \<Rightarrow> unit io" where
  "refresh_view E view =
     (let sql = ''REFRESH MATERIALIZED VIEW'' @ nl @ ''                 ''
                @ pg_schema E @ ''.'' @ view
      in run_query E sql True)"

definition refresh_views :: "env \<Rightarrow> unit io" where
  "refresh_views E = for_each (refresh_view E) MATERIALIZED_VIEWS"

definition backup_table :: "env \<Rightarrow> string \<Rightarrow> unit io" where
  "backup_table E table =
     (let sql = nl @ ''            DROP TABLE IF EXISTS '' @ pg_schema E @ ''.'' @ table @ ''_backup;''
              @ nl @ ''            CREATE TABLE '' @ pg_schema E @ ''.'' @ table @ ''_backup''
              @ nl @ ''            AS SELECT *''
              @ nl @ ''            FROM '' @ pg_schema E @ ''.'' @ table
              @ nl @ ''        ''
      in run_query E sql True)"

definition revert_table :: "env \<Rightarrow> string \<Rightarrow> unit io" where
  "revert_table E table =
     (let sql = nl @ ''            DROP TABLE IF EXISTS '' @ pg_schema E @ ''.'' @ table @ '';''
              @ nl @ ''            CREATE TABLE '' @ pg_schema E @ ''.'' @ table
              @ nl @ ''            AS SELECT *''
              @ nl @ ''            FROM '' @ pg_schema E @ ''.'' @ table
              @ nl @ ''        ''
      in run_query E sql True)"

definition truncate_table :: "env \<Rightarrow> string \<Rightarrow> unit io" where
  "truncate_table E table = run_query E (''TRUNCATE '' @ pg_schema E @ ''.'' @ table) True"

definition get_columns :: "env \<Rightarrow> string \<Rightarrow> json list io" where
  "get_columns E table =
     (let sql = nl @ ''            SELECT DISTINCT column_name''
              @ nl @ ''            FROM information_schema.columns''
              @ nl @ ''            WHERE table_schema='' @ sq @ pg_schema E @ sq
              @ nl @ ''            AND table_name='' @ sq @ table @ sq
              @ nl @ ''        ''
      in io_bind (pd_read_sql E sql) (\<lambda>df. of_result (df_column ''column_name'' df)))"

text \<open>
  The first lines of \<open>load_item\<close> and of \<open>load_items\<close>: the column names come from the
  cache, which is filled from the catalogue on the first use of a table.
\<close>

definition cached_columns :: "env \<Rightarrow> string \<Rightarrow> json list io" where
  "cached_columns E table =
     (\<lambda>w. case columns w table of
        Some cs \<Rightarrow> (Inr cs, w)
      | None \<Rightarrow>
          (case get_columns E table w of
             (Inl e, w') \<Rightarrow> (Inl e, w')
           | (Inr cs, w') \<Rightarrow> (Inr cs, w'\<lparr>columns := (columns w')(table \<mapsto> cs)\<rparr>)))"

text \<open>
  \<open>for key in item: if key not in columns: del item_[key]\<close>, over the keys of the
  original and deleting from the copy.
\<close>

fun del_invalid :: "json list \<Rightarrow> string list \<Rightarrow> (string \<times> json) list \<Rightarrow> (string \<times> json) list" where
  "del_invalid cs [] item' = item'"
| "del_invalid cs (key # keys) item' =
     del_invalid cs keys (if JStr key \<notin> set cs then AList.delete key item' else item')"

text \<open>The pieces of the insert statement: \<open>cols\<close>, \<open>row\<close> and the two templates.\<close>

definition column_list :: "string list \<Rightarrow> string" where
  "column_list keys = ''('' @ join '', '' keys @ '')''"

definition placeholders :: "nat \<Rightarrow> string" where
  "placeholders n = ''('' @ join '', '' (replicate n ''%s'') @ '')''"

definition insert_sql :: "env \<Rightarrow> string \<Rightarrow> string \<Rightarrow> string \<Rightarrow> string" where
  "insert_sql E table cols row =
       nl @ ''            INSERT INTO '' @ pg_schema E @ ''.'' @ table
     @ nl @ ''            '' @ cols
     @ nl @ ''            VALUES''
     @ nl @ ''            '' @ row
     @ nl @ ''        ''"






definition load_item :: "env \<Rightarrow> (string \<times> json) list \<Rightarrow> string \<Rightarrow> unit io" where
  "load_item E item table =
     io_bind (cached_columns E table) (\<lambda>cs.
       let item' = del_invalid cs (map fst item) item;
           n = length item';
           row = placeholders n;
           cols = column_list (map fst item');
           sql = insert_sql E table cols row;
           values = map snd item'
       in io_bind (execute E (Execute sql (Some values))) (\<lambda>_. emit Commit))"


text \<open>\<open>if secondary:\<close> on an optional dictionary.\<close>

fun given :: "(string \<times> json) list option \<Rightarrow> (string \<times> json) list" where
  "given None = []"
| "given (Some d) = d"

definition delete_item :: "env \<Rightarrow> string \<Rightarrow> json \<Rightarrow> (string \<times> json) list option \<Rightarrow> unit io" where
  "delete_item E table item_id secondary =
     (let sql = ''DELETE FROM '' @ pg_schema E @ ''.'' @ table
                @ '' WHERE id='' @ sq @ py_str E item_id @ sq;
          sql = fold (\<lambda>kv sql. sql @ '' AND '' @ fst kv @ ''='' @ sq @ py_str E (snd kv) @ sq)
                  (given secondary) sql
      in run_query E sql True)"

definition get_item :: "env \<Rightarrow> string \<Rightarrow> json \<Rightarrow> (string \<times> json) list option \<Rightarrow> json io" where
  "get_item E table item_id secondary =
     (let sql = ''SELECT * FROM '' @ pg_schema E @ ''.'' @ table
                @ '' WHERE id='' @ sq @ py_str E item_id @ sq
      in io_bind (pd_read_sql E sql) (\<lambda>df.
           let sql = fold (\<lambda>kv sql. sql @ '' AND '' @ fst kv @ ''='' @ sq @ py_str E (snd kv) @ sq)
                       (given secondary) sql
           in (case df of r # _ \<Rightarrow> ret (JDict r) | [] \<Rightarrow> ret JNull)))"

definition update_column :: "env \<Rightarrow> string \<Rightarrow> json \<Rightarrow> string \<Rightarrow> json \<Rightarrow> unit io" where
  "update_column E table item_id column val =
     (let sql = nl @ ''            UPDATE '' @ pg_schema E @ ''.'' @ table
              @ nl @ ''            SET '' @ column @ '' = '' @ py_str E val
              @ nl @ ''            WHERE id = '' @ sq @ py_str E item_id @ sq
              @ nl @ ''        ''
      in run_query E sql True)"

definition last_event_load_date :: "env \<Rightarrow> json io" where
  "last_event_load_date E =
     (let sql = nl @ ''            SELECT max(load_datetime) as max_start''
              @ nl @ ''            FROM '' @ pg_schema E @ ''.events''
              @ nl @ ''            WHERE start_datetime IS NOT NULL''
              @ nl @ ''        ''
      in io_bind (pd_read_sql E sql) (\<lambda>df.
           case df of
             [] \<Rightarrow> ret JNull
           | r # _ \<Rightarrow>
               io_bind (of_result (subscript (JDict r) ''max_start'')) (\<lambda>time.
                 if truthy time
                 then (case time of JTime t \<Rightarrow> ret (JTime t) | _ \<Rightarrow> raise AttributeError)
                 else ret JNull)))"

section \<open>eventbrite.py: the API client\<close>

definition subscript2 :: "json \<Rightarrow> string \<Rightarrow> string \<Rightarrow> error + json" where
  "subscript2 x k1 k2 = (case subscript x k1 of Inl e \<Rightarrow> Inl e | Inr y \<Rightarrow> subscript y k2)"

text \<open>\<open>start + 'T0:00:00'\<close>\<close>

fun str_concat :: "json \<Rightarrow> string \<Rightarrow> error + json" where
  "str_concat (JStr s) t = Inr (JStr (s @ t))"
| "str_concat _ t = Inl TypeError"

text \<open>
  The end of every method of \<open>Eventbrite\<close>: send the request, give \<open>None\<close> for a status
  other than 200 and the decoded body otherwise.
\<close>

definition http_get :: "env \<Rightarrow> string \<Rightarrow> (string \<times> json) list \<Rightarrow> json io" where
  "http_get E path params =
     (\<lambda>w. let response = requests_get E (trace w) path params;
              w' = w\<lparr>trace := trace w @ [HttpGet path params]\<rparr>
          in if fst response \<noteq> 200 then (Inr JNull, w') else (Inr (snd response), w'))"

text \<open>
  \<open>org_id\<close> has no default value: a call that does not pass it raises \<open>TypeError\<close>
  before anything is sent. \<open>None\<close> stands for the argument left out.
\<close>

definition Eventbrite_get_events :: "env \<Rightarrow> json option \<Rightarrow> json \<Rightarrow> json \<Rightarrow> json \<Rightarrow> json io" where
  "Eventbrite_get_events E org_id start last_modified page =
     (case org_id of
        None \<Rightarrow> raise TypeError
      | Some org \<Rightarrow>
          let path = ''/organizers/'' @ py_str E org @ ''/events/'';
              param_dict = [(''token'', JStr (eventbrite_oauth E)), (''page'', page)]
          in io_bind (if truthy start
                      then io_bind (of_result (str_concat start ''T0:00:00'')) (\<lambda>date.
                             ret (AList.update ''start_date.range_start'' date param_dict))
                      else ret param_dict) (\<lambda>param_dict.
             io_bind (if truthy last_modified
                      then io_bind (of_result (str_concat last_modified ''T0:00:00'')) (\<lambda>date.
                             ret (AList.update ''date_modified.range_start'' date param_dict))
                      else ret param_dict) (\<lambda>param_dict.
             http_get E path param_dict)))"

definition Eventbrite_get_attendees :: "env \<Rightarrow> json \<Rightarrow> json \<Rightarrow> json io" where
  "Eventbrite_get_attendees E event_id page =
     http_get E (''/events/'' @ py_str E event_id @ ''/attendees'')
       [(''token'', JStr (eventbrite_oauth E)), (''page'', page)]"

definition Eventbrite_get_venue :: "env \<Rightarrow> json \<Rightarrow> json \<Rightarrow> json io" where
  "Eventbrite_get_venue E venue_id page =
     http_get E (''/venues/'' @ py_str E venue_id)
       [(''token'', JStr (eventbrite_oauth E)), (''page'', page)]"

section \<open>eventbrite.py: the loader\<close>

definition sleep :: "nat \<Rightarrow> unit io" where
  "sleep n = emit (Sleep n)"

definition get_events :: "env \<Rightarrow> json \<Rightarrow> json \<Rightarrow> json io" where
  "get_events E start page =
     io_bind (Eventbrite_get_events E (Some (JStr (eventbrite_org E))) start JNull page) (\<lambda>events.
       if \<not> truthy events
       then io_bind (sleep 3600) (\<lambda>_. Eventbrite_get_events E None start JNull page)
       else ret events)"

definition get_attendees :: "env \<Rightarrow> json \<Rightarrow> json \<Rightarrow> json io" where
  "get_attendees E event_id page =
     io_bind (Eventbrite_get_attendees E event_id page) (\<lambda>attendees.
       if \<not> truthy attendees
       then io_bind (sleep 3600) (\<lambda>_. Eventbrite_get_attendees E event_id page)
       else ret attendees)"

text \<open>The retry names \<open>event_id\<close>, which is bound nowhere in \<open>get_venue\<close> or the module.\<close>

definition get_venue :: "env \<Rightarrow> json \<Rightarrow> json \<Rightarrow> json io" where
  "get_venue E venue_id page =
     io_bind (Eventbrite_get_venue E venue_id page) (\<lambda>venue.
       if \<not> truthy venue
       then io_bind (sleep 3600) (\<lambda>_. raise (NameError ''event_id''))
       else ret venue)"

text \<open>\<open>datetime.datetime.utcnow()\<close>\<close>

definition datetime_utcnow :: "env \<Rightarrow> json io" where
  "datetime_utcnow E = (\<lambda>w. (Inr (JTime (utcnow E (trace w))), w))"

text \<open>\<open>self.database.load_item(x, table)\<close> for a value built by the loader.\<close>

definition database_load_item :: "env \<Rightarrow> json \<Rightarrow> string \<Rightarrow> unit io" where
  "database_load_item E x table =
     (case x of JDict d \<Rightarrow> load_item E d table | _ \<Rightarrow> raise TypeError)"

definition load_event :: "env \<Rightarrow> json \<Rightarrow> unit io" where
  "load_event E event =
     io_bind (of_result (subscript2 event ''start'' ''utc'')) (\<lambda>utc.
     io_bind (of_result (arrow_get E utc)) (\<lambda>start.
     io_bind (of_result (set_item event ''start_datetime'' start)) (\<lambda>event'.
     io_bind (of_result (subscript2 event' ''end'' ''utc'')) (\<lambda>utc.
     io_bind (of_result (arrow_get E utc)) (\<lambda>end'.
     io_bind (of_result (set_item event' ''end_datetime'' end')) (\<lambda>event'.
     io_bind (of_result (subscript2 event' ''description'' ''text'')) (\<lambda>description.
     io_bind (of_result (set_item event' ''description'' description)) (\<lambda>event'.
     io_bind (of_result (subscript2 event' ''name'' ''text'')) (\<lambda>name.
     io_bind (of_result (set_item event' ''name'' name)) (\<lambda>event'.
     io_bind (datetime_utcnow E) (\<lambda>t.
     io_bind (of_result (set_item event' ''load_datetime'' t)) (\<lambda>event'.
     database_load_item E event' ''events''))))))))))))"

text \<open>\<open>if key in profile: attendee_[key] = profile[key]\<close>\<close>

definition copy_if_present :: "string \<Rightarrow> json \<Rightarrow> json \<Rightarrow> error + json" where
  "copy_if_present key profile attendee' =
     (case contains key profile of
        Inl e \<Rightarrow> Inl e
      | Inr False \<Rightarrow> Inr attendee'
      | Inr True \<Rightarrow>
          (case subscript profile key of
             Inl e \<Rightarrow> Inl e
           | Inr v \<Rightarrow> set_item attendee' key v))"

definition gross_cost :: "env \<Rightarrow> json \<Rightarrow> error + json" where
  "gross_cost E x =
     (case subscript2 x ''costs'' ''gross'' of
        Inl e \<Rightarrow> Inl e
      | Inr gross \<Rightarrow>
          (case subscript gross ''major_value'' of
             Inl e \<Rightarrow> Inl e
           | Inr cost \<Rightarrow> float_of E cost))"

definition load_attendee :: "env \<Rightarrow> json \<Rightarrow> unit io" where
  "load_attendee E attendee =
     io_bind (of_result (subscript attendee ''profile'')) (\<lambda>profile.
     io_bind (of_result (copy_if_present ''name'' profile attendee)) (\<lambda>attendee'.
     io_bind (of_result (copy_if_present ''first_name'' profile attendee')) (\<lambda>attendee'.
     io_bind (of_result (copy_if_present ''last_name'' profile attendee')) (\<lambda>attendee'.
     io_bind (of_result (copy_if_present ''email'' profile attendee')) (\<lambda>attendee'.
     io_bind (of_result (gross_cost E attendee')) (\<lambda>cost.
     io_bind (of_result (set_item attendee' ''cost'' cost)) (\<lambda>attendee'.
     io_bind (datetime_utcnow E) (\<lambda>t.
     io_bind (of_result (set_item attendee' ''load_datetime'' t)) (\<lambda>attendee'.
     database_load_item E attendee' ''attendees'')))))))))"

definition load_order :: "env \<Rightarrow> json \<Rightarrow> unit io" where
  "load_order E order =
     io_bind (of_result (gross_cost E order)) (\<lambda>cost.
     io_bind (of_result (set_item order ''cost'' cost)) (\<lambda>order'.
     io_bind (datetime_utcnow E) (\<lambda>t.
     io_bind (of_result (set_item order' ''load_datetime'' t)) (\<lambda>order'.
     database_load_item E order' ''orders''))))"

text \<open>
  \<open>for key in venue_['address']: val = venue_['address'][key]; venue_[key] = val\<close>:
  the keys are those of the address at the start of the loop; each round reads the
  venue as it is by then. Only string keys are followed (an address that is a list of
  numbers is outside the model and raises here).
\<close>

fun flatten_address :: "json list \<Rightarrow> json \<Rightarrow> error + json" where
  "flatten_address [] venue' = Inr venue'"
| "flatten_address (key # keys) venue' =
     (case key of
        JStr k \<Rightarrow>
          (case subscript2 venue' ''address'' k of
             Inl e \<Rightarrow> Inl e
           | Inr v \<Rightarrow>
               (case set_item venue' k v of
                  Inl e \<Rightarrow> Inl e
                | Inr venue'' \<Rightarrow> flatten_address keys venue''))
      | _ \<Rightarrow> Inl TypeError)"

definition to_float :: "env \<Rightarrow> string \<Rightarrow> json \<Rightarrow> error + json" where
  "to_float E key x =
     (case subscript x key of
        Inl e \<Rightarrow> Inl e
      | Inr v \<Rightarrow> (case float_of E v of Inl e \<Rightarrow> Inl e | Inr f \<Rightarrow> set_item x key f))"

definition load_venue :: "env \<Rightarrow> json \<Rightarrow> unit io" where
  "load_venue E venue =
     io_bind (of_result (subscript venue ''address'')) (\<lambda>address.
     io_bind (of_result (iterate address)) (\<lambda>keys.
     io_bind (of_result (flatten_address keys venue)) (\<lambda>venue'.
     io_bind (of_result (to_float E ''latitude'' venue')) (\<lambda>venue'.
     io_bind (of_result (to_float E ''longitude'' venue')) (\<lambda>venue'.
     database_load_item E venue' ''venues'')))))"

subsection \<open>run\<close>

text \<open>
  The two \<open>while\<close> loops of \<open>run\<close> go on for as long as the API reports more pages, so
  they take fuel: one unit per round, and \<open>None\<close> when it runs out.
\<close>

type_synonym 'a loop = "world \<Rightarrow> ((error + 'a) \<times> world) option"

definition lift :: "'a io \<Rightarrow> 'a loop" where
  "lift m = (\<lambda>w. Some (m w))"

definition loop_bind :: "'a loop \<Rightarrow> ('a \<Rightarrow> 'b loop) \<Rightarrow> 'b loop" where
  "loop_bind m f =
     (\<lambda>w. case m w of
        None \<Rightarrow> None
      | Some (Inl e, w') \<Rightarrow> Some (Inl e, w')
      | Some (Inr x, w') \<Rightarrow> f x w')"

fun loop_for_each :: "('a \<Rightarrow> unit loop) \<Rightarrow> 'a list \<Rightarrow> unit loop" where
  "loop_for_each body [] = lift (ret ())"
| "loop_for_each body (x # xs) = loop_bind (body x) (\<lambda>_. loop_for_each body xs)"

text \<open>Lines 143 to 151: where to start from.\<close>

definition one_day :: int where
  "one_day = 86400000000"

definition first_start :: "env \<Rightarrow> json io" where
  "first_start E =
     io_bind (last_event_load_date E) (\<lambda>last_load_date.
       if truthy last_load_date
       then (\<lambda>w. case last_load_date of
               JTime t \<Rightarrow>
                 (let one_day_ago = now E (trace w) - one_day;
                      first_event = min one_day_ago t
                  in (Inr (JStr (take 10 (str_of E (JTime first_event)))), w))
             | _ \<Rightarrow> (Inl TypeError, w))
       else ret JNull)"

text \<open>Lines 166 to 172: the event row is deleted and loaded again.\<close>

definition replace_event :: "env \<Rightarrow> json \<Rightarrow> json io" where
  "replace_event E event =
     io_bind (of_result (subscript2 event ''name'' ''text'')) (\<lambda>msg.
     io_bind (of_result (subscript event ''id'')) (\<lambda>event_id.
     io_bind (delete_item E ''events'' event_id None) (\<lambda>_.
     io_bind (load_event E event) (\<lambda>_.
     ret event_id))))"

text \<open>Lines 174 to 180: the venue is loaded if it is not in the database yet.\<close>

definition load_venue_if_new :: "env \<Rightarrow> json \<Rightarrow> unit io" where
  "load_venue_if_new E event =
     io_bind (of_result (subscript event ''venue_id'')) (\<lambda>venue_id.
     io_bind (get_item E ''venues'' venue_id None) (\<lambda>venue'.
       if truthy venue_id \<and> \<not> truthy venue'
       then io_bind (get_venue E venue_id (JInt 1)) (\<lambda>venue. load_venue E venue)
       else ret ()))"

text \<open>Lines 187 to 195: one page of attendees.\<close>

definition load_attendees_page :: "env \<Rightarrow> json \<Rightarrow> json \<Rightarrow> unit io" where
  "load_attendees_page E event_id attendees =
     io_bind (of_result (subscript attendees ''attendees'')) (\<lambda>xs.
     io_bind (of_result (iterate xs)) (\<lambda>xs.
       for_each (\<lambda>attendee.
         if \<not> truthy attendee then ret ()
         else io_bind (of_result (subscript attendee ''id'')) (\<lambda>attendee_id.
              io_bind (delete_item E ''attendees'' attendee_id (Some [(''event_id'', event_id)])) (\<lambda>_.
              load_attendee E attendee))) xs))"

text \<open>\<open>x['pagination']['page_number'] + 1\<close>\<close>

definition next_page :: "json \<Rightarrow> error + json" where
  "next_page x =
     (case subscript2 x ''pagination'' ''page_number'' of
        Inl e \<Rightarrow> Inl e
      | Inr n \<Rightarrow> plus_one n)"

text \<open>Lines 184 to 202: \<open>while more_attendees\<close>.\<close>

fun attendees_loop :: "env \<Rightarrow> nat \<Rightarrow> json \<Rightarrow> json \<Rightarrow> unit loop" where
  "attendees_loop E 0 event_id attendees = (\<lambda>w. None)"
| "attendees_loop E (Suc fuel) event_id attendees =
     (if \<not> truthy attendees then lift (ret ())
      else
        loop_bind (lift (load_attendees_page E event_id attendees)) (\<lambda>_.
        loop_bind (lift (of_result (subscript2 attendees ''pagination'' ''has_more_items''))) (\<lambda>more.
          if \<not> truthy more then lift (ret ())
          else
            loop_bind (lift (of_result (next_page attendees))) (\<lambda>page.
            loop_bind (lift (get_attendees E event_id page)) (\<lambda>attendees'.
            attendees_loop E fuel event_id attendees')))))"

text \<open>Lines 163 to 204: the body of \<open>for event in events['events']\<close>.\<close>

definition process_event :: "env \<Rightarrow> nat \<Rightarrow> json \<Rightarrow> unit loop" where
  "process_event E fuel event =
     (if \<not> truthy event then lift (ret ())
      else
        loop_bind (lift (replace_event E event)) (\<lambda>event_id.
        loop_bind (lift (load_venue_if_new E event)) (\<lambda>_.
        loop_bind (lift (get_attendees E event_id (JInt 1))) (\<lambda>attendees.
        loop_bind (attendees_loop E fuel event_id attendees) (\<lambda>_.
        lift (sleep 60))))))"

definition process_page :: "env \<Rightarrow> nat \<Rightarrow> json \<Rightarrow> unit loop" where
  "process_page E fuel events =
     loop_bind (lift (of_result (subscript events ''events''))) (\<lambda>xs.
     loop_bind (lift (of_result (iterate xs))) (\<lambda>xs.
     loop_for_each (process_event E fuel) xs))"

text \<open>
  Lines 162 to 213: \<open>while more_events\<close>. \<open>inner\<close> is the fuel of each attendee loop,
  \<open>fuel\<close> that of this loop.
\<close>

fun events_loop :: "env \<Rightarrow> nat \<Rightarrow> nat \<Rightarrow> json \<Rightarrow> json \<Rightarrow> unit loop" where
  "events_loop E inner 0 start events = (\<lambda>w. None)"
| "events_loop E inner (Suc fuel) start events =
     loop_bind (process_page E inner events) (\<lambda>_.
     loop_bind (lift (of_result (subscript2 events ''pagination'' ''has_more_items''))) (\<lambda>more.
       if \<not> truthy more then lift (ret ())
       else
         loop_bind (lift (of_result (next_page events))) (\<lambda>page.
         loop_bind (lift (get_events E start page)) (\<lambda>events'.
         events_loop E inner fuel start events'))))"

text \<open>\<open>num_events = events['pagination']['object_count']\<close> and \<open>num_events > 0\<close>\<close>

definition has_events :: "json \<Rightarrow> error + bool" where
  "has_events events =
     (case subscript2 events ''pagination'' ''object_count'' of
        Inl e \<Rightarrow> Inl e
      | Inr num_events \<Rightarrow> greater_zero num_events)"

definition run :: "env \<Rightarrow> nat \<Rightarrow> unit loop" where
  "run E fuel =
     loop_bind (lift (first_start E)) (\<lambda>start.
     loop_bind (lift (get_events E start (JInt 1))) (\<lambda>events.
     loop_bind (lift (of_result (has_events events))) (\<lambda>some.
       if some
       then loop_bind (events_loop E fuel fuel start events) (\<lambda>_. lift (refresh_views E))
       else lift (ret ()))))"

section \<open>Observations and sample inputs\<close>

text \<open>The words of a statement: SQL separates them by blanks and line breaks.\<close>

definition is_space :: "char \<Rightarrow> bool" where
  "is_space c = (c = CHR '' '' \<or> c = CHR 0x0A)"

function tokens :: "string \<Rightarrow> string list" where
  "tokens [] = []"
| "tokens (c # cs) =
     (if is_space c then tokens cs
      else (c # takeWhile (\<lambda>x. \<not> is_space x) cs) # tokens (dropWhile (\<lambda>x. \<not> is_space x) cs))"
  by pat_completeness auto
termination
  by (relation "measure length") (auto simp: length_dropWhile_le less_Suc_eq_le)

text \<open>The requests for a page of events in a trace, by the page they ask for.\<close>

definition events_path :: "env \<Rightarrow> string" where
  "events_path E = ''/organizers/'' @ eventbrite_org E @ ''/events/''"

fun events_request :: "env \<Rightarrow> action \<Rightarrow> json option list" where
  "events_request E (HttpGet path params) =
     (if path = events_path E then [map_of params ''page''] else [])"
| "events_request E _ = []"

definition events_pages :: "env \<Rightarrow> action list \<Rightarrow> json option list" where
  "events_pages E tr = concat (map (events_request E) tr)"

text \<open>A statement is quiet when it asks for no page of events.\<close>

definition quiet :: "env \<Rightarrow> 'a io \<Rightarrow> bool" where
  "quiet E m = (\<forall>w. events_pages E (trace (snd (m w))) = events_pages E (trace w))"

definition quiet_loop :: "env \<Rightarrow> 'a loop \<Rightarrow> bool" where
  "quiet_loop E m = (\<forall>w r w'. m w = Some (r, w') \<longrightarrow> events_pages E (trace w') = events_pages E (trace w))"

text \<open>
  A page of events as the remote API answers it: page \<open>p\<close> of \<open>n\<close>, with more items
  announced on every page but the last.
\<close>

definition events_page :: "int \<Rightarrow> nat \<Rightarrow> nat \<Rightarrow> json list \<Rightarrow> json" where
  "events_page count n p evs =
     JDict [(''pagination'',
             JDict [(''object_count'', JInt count), (''page_number'', JInt (int p)),
                    (''has_more_items'', JBool (p < n))]),
            (''events'', JList evs)]"

text \<open>
  Sample surroundings: a fresh process, and an environment whose database is empty and
  accepts every statement and whose API refuses every request.
\<close>

definition w0 :: world where
  "w0 = \<lparr>trace = [], columns = Map.empty\<rparr>"

definition E0 :: env where
  "E0 = \<lparr>pg_schema = ''public'', eventbrite_oauth = ''secret'', eventbrite_org = ''42'',
          read_sql = (\<lambda>tr sql. []), requests_get = (\<lambda>tr path params. (404, JNull)),
          cursor_execute = (\<lambda>tr a. None),
          now = (\<lambda>tr. 0), utcnow = (\<lambda>tr. int (length tr)), str_of = (\<lambda>v. ''?''),
          float_of = (\<lambda>v. Inr (JFloat 0)), arrow_get = (\<lambda>v. Inr (JTime 0))\<rparr>"

text \<open>
  A process that has the columns of three tables in its cache, a record with a field the
  table does not know, a batch whose second record has a column the first lacks, a
  database that holds one attendee (of event 7) and answers the query by identifier
  alone with it, and a venue as the API describes one.
\<close>

definition wc :: world where
  "wc = \<lparr>trace = [],
          columns = [''events'' \<mapsto> [JStr ''id'', JStr ''name''],
                     ''t'' \<mapsto> [JStr ''a'', JStr ''b''],
                     ''venues'' \<mapsto> [JStr ''id'', JStr ''city'', JStr ''latitude'',
                                      JStr ''longitude'', JStr ''load_datetime'']]\<rparr>"

definition item1 :: "(string \<times> json) list" where
  "item1 = [(''id'', JStr ''7''), (''colour'', JStr ''red''), (''name'', JStr ''Talk'')]"


definition query5 :: string where
  "query5 = ''SELECT * FROM public.attendees WHERE id='' @ sq @ ''1'' @ sq"

definition E5 :: env where
  "E5 = E0\<lparr>read_sql := (\<lambda>tr sql.
           if sql = query5 then [[(''id'', JStr ''1''), (''event_id'', JStr ''7'')]] else [])\<rparr>"

definition venue3 :: json where
  "venue3 =
     JDict [(''id'', JStr ''v1''),
            (''address'', JDict [(''city'', JStr ''Oslo'')]),
            (''latitude'', JStr ''59.9''),
            (''longitude'', JStr ''10.7'')]"

text \<open>
  PostgreSQL wants at least one name in the column list of an insert and at least one
  expression in a row of \<open>VALUES\<close>: a statement with the word \<open>()\<close> is not a valid
  insert.
\<close>

definition has_empty_list :: "string \<Rightarrow> bool" where
  "has_empty_list sql = (''()'' \<in> set (tokens sql))"

text \<open>
  A database that answers as PostgreSQL does in two cases: it refuses a statement with
  an empty list as a syntax error, and it refuses a statement that drops a table and
  then selects from it, the table being undefined by then.
\<close>

definition postgres_refuses :: "action \<Rightarrow> error option" where
  "postgres_refuses a =
     (case a of
        Execute sql params \<Rightarrow>
          (let ts = tokens sql
           in if has_empty_list sql then Some (DatabaseError ''syntax error'')
              else if take 4 ts = [''DROP'', ''TABLE'', ''IF'', ''EXISTS'']
                      \<and> 5 < length ts \<and> ts ! 4 = last ts @ '';''
                   then Some (DatabaseError ''undefined table'')
              else None)
      | _ \<Rightarrow> None)"

definition Epg :: env where
  "Epg = E0\<lparr>cursor_execute := (\<lambda>tr a. postgres_refuses a)\<rparr>"

text \<open>
  An event as the API describes one, without a venue; a page of attendees with nobody on
  it; and an API that has two pages of events, one event on each, and no attendee for
  any event.
\<close>

definition event7 :: json where
  "event7 =
     JDict [(''id'', JStr ''e1''),
            (''name'', JDict [(''text'', JStr ''Talk'')]),
            (''description'', JDict [(''text'', JStr ''A talk'')]),
            (''start'', JDict [(''utc'', JStr ''2020-01-01T18:00:00Z'')]),
            (''end'', JDict [(''utc'', JStr ''2020-01-01T20:00:00Z'')]),
            (''venue_id'', JNull)]"

definition no_attendees :: json where
  "no_attendees =
     JDict [(''pagination'', JDict [(''page_number'', JInt 1), (''has_more_items'', JBool False)]),
            (''attendees'', JList [])]"

definition E7 :: env where
  "E7 = E0\<lparr>requests_get := (\<lambda>tr path params.
           if path = ''/organizers/42/events/''
           then (case map_of params ''page'' of
                   Some (JInt i) \<Rightarrow> (200, events_page 2 2 (nat i) [event7])
                 | _ \<Rightarrow> (404, JNull))
           else (200, no_attendees))\<rparr>"

text \<open>An API that has no event at all.\<close>

definition E8 :: env where
  "E8 = E0\<lparr>requests_get := (\<lambda>tr path params. (200, events_page 0 1 1 []))\<rparr>"



definition E9 :: env where
  "E9 = E0\<lparr>requests_get := (\<lambda>tr path params.
             if path = ''/venues/v1'' then (200, venue3) else (404, JNull)),
           str_of := (\<lambda>v. if v = JNull then ''None'' else ''?'')\<rparr>"

section \<open>\<open>revert_table\<close>\<close>

lemma tokens_space: "is_space c \<Longrightarrow> tokens (c # cs) = tokens cs"
  by simp

lemma tokens_append_space:
  "is_space c \<Longrightarrow> tokens (p @ c # r) = tokens p @ tokens r"
proof (induction p rule: tokens.induct)
  case 1
  then show ?case by simp
next
  case (2 x xs)
  show ?case
  proof (cases "is_space x")
    case True
    with 2 show ?thesis by simp
  next
    case False
    have tw: "takeWhile (\<lambda>y. \<not> is_space y) (xs @ c # r) = takeWhile (\<lambda>y. \<not> is_space y) xs"
      using \<open>is_space c\<close> by (induction xs) simp_all
    have dw: "dropWhile (\<lambda>y. \<not> is_space y) (xs @ c # r) = dropWhile (\<lambda>y. \<not> is_space y) xs @ c # r"
      using \<open>is_space c\<close> by (induction xs) simp_all
    from 2(2) [OF False \<open>is_space c\<close>] False show ?thesis
      by (simp add: tw dw)
  qed
qed

lemma concat_tokens: "concat (tokens s) = filter (\<lambda>c. \<not> is_space c) s"
proof (induction s rule: tokens.induct)
  case 1
  show ?case by simp
next
  case (2 x xs)
  show ?case
  proof (cases "is_space x")
    case True
    with 2 show ?thesis by simp
  next
    case False
    have "filter (\<lambda>c. \<not> is_space c) xs =
        takeWhile (\<lambda>y. \<not> is_space y) xs @ filter (\<lambda>c. \<not> is_space c) (dropWhile (\<lambda>y. \<not> is_space y) xs)"
      by (induction xs) simp_all
    with 2(2) [OF False] False show ?thesis by simp
  qed
qed

lemma tokens_backup: "tokens (q @ ''_backup'') \<noteq> tokens q"
proof
  assume "tokens (q @ ''_backup'') = tokens q"
  then have "concat (tokens (q @ ''_backup'')) = concat (tokens q)" by simp
  then show False by (simp add: concat_tokens is_space_def)
qed

lemma revert_text:
  fixes q :: string
  shows "tokens (nl @ ''            DROP TABLE IF EXISTS '' @ q @ '';''
              @ nl @ ''            CREATE TABLE '' @ q
              @ nl @ ''            AS SELECT *''
              @ nl @ ''            FROM '' @ q
              @ nl @ ''        '')
       = [''DROP'', ''TABLE'', ''IF'', ''EXISTS''] @ tokens (q @ '';'')
         @ [''CREATE'', ''TABLE''] @ tokens q
         @ [''AS'', ''SELECT'', ''*'', ''FROM''] @ tokens q"
proof -
  define A where "A = nl @ ''            DROP TABLE IF EXISTS''"
  define B where "B = ''            CREATE TABLE''"
  define C where "C = ''            AS SELECT *'' @ nl @ ''            FROM''"
  define D where "D = ''        ''"
  have sp: "is_space (CHR '' '')" and ln: "is_space (CHR 0x0A)"
    by (simp_all add: is_space_def)
  have e: "nl @ ''            DROP TABLE IF EXISTS '' @ q @ '';''
              @ nl @ ''            CREATE TABLE '' @ q
              @ nl @ ''            AS SELECT *''
              @ nl @ ''            FROM '' @ q
              @ nl @ ''        ''
     = A @ CHR '' '' # ((q @ '';'') @ CHR 0x0A # (B @ CHR '' '' #
         (q @ CHR 0x0A # (C @ CHR '' '' # (q @ CHR 0x0A # D)))))"
    by (simp add: A_def B_def C_def D_def nl_def)
  have c: "tokens A = [''DROP'', ''TABLE'', ''IF'', ''EXISTS'']"
    "tokens B = [''CREATE'', ''TABLE'']"
    "tokens C = [''AS'', ''SELECT'', ''*'', ''FROM'']"
    "tokens D = []"
    by (simp_all add: A_def B_def C_def D_def nl_def is_space_def)
  have "tokens (A @ CHR '' '' # ((q @ '';'') @ CHR 0x0A # (B @ CHR '' '' #
         (q @ CHR 0x0A # (C @ CHR '' '' # (q @ CHR 0x0A # D))))))
      = tokens A @ tokens (q @ '';'') @ tokens B @ tokens q @ tokens C @ tokens q @ tokens D"
    by (simp only: tokens_append_space [OF sp] tokens_append_space [OF ln])
  then show ?thesis
    unfolding e c by simp
qed

lemma run_query_result:
  "run_query E sql True w =
     (case cursor_execute E (trace w) (Execute sql None) of
        None \<Rightarrow> (Inr (), w\<lparr>trace := trace w @ [Execute sql None, Commit]\<rparr>)
      | Some e \<Rightarrow> (Inl e, w\<lparr>trace := trace w @ [Execute sql None]\<rparr>))"
  by (simp add: run_query_def execute_def io_bind_def emit_def split: option.splits)

text \<open>
  Claim C6, as the code has it. For every table name, \<open>revert_table\<close> sends one
  statement. Read word by word, the statement asks to drop the table and to create it
  again from a selection of all rows of the table itself; the source of the selection
  is not the backup table. \<open>revert_table\<close> commits and returns when the database
  accepts the statement; when the database refuses it, the error is raised and nothing
  is committed.
\<close>

theorem revert_table_sends_self_select:
  "let q = pg_schema E @ ''.'' @ table;
       sql = nl @ ''            DROP TABLE IF EXISTS '' @ q @ '';''
           @ nl @ ''            CREATE TABLE '' @ q
           @ nl @ ''            AS SELECT *''
           @ nl @ ''            FROM '' @ q
           @ nl @ ''        ''
   in revert_table E table w =
        (case cursor_execute E (trace w) (Execute sql None) of
           None \<Rightarrow> (Inr (), w\<lparr>trace := trace w @ [Execute sql None, Commit]\<rparr>)
         | Some e \<Rightarrow> (Inl e, w\<lparr>trace := trace w @ [Execute sql None]\<rparr>))
      \<and> tokens sql =
          [''DROP'', ''TABLE'', ''IF'', ''EXISTS''] @ tokens (q @ '';'')
          @ [''CREATE'', ''TABLE''] @ tokens q
          @ [''AS'', ''SELECT'', ''*'', ''FROM''] @ tokens q
      \<and> tokens (q @ ''_backup'') \<noteq> tokens q"
  unfolding Let_def
proof (intro conjI)
  have h: "revert_table E table w =
      run_query E (nl @ ''            DROP TABLE IF EXISTS '' @ (pg_schema E @ ''.'' @ table) @ '';''
           @ nl @ ''            CREATE TABLE '' @ (pg_schema E @ ''.'' @ table)
           @ nl @ ''            AS SELECT *''
           @ nl @ ''            FROM '' @ (pg_schema E @ ''.'' @ table)
           @ nl @ ''        '') True w"
    by (simp add: revert_table_def Let_def)
  show "revert_table E table w =
      (case cursor_execute E (trace w)
         (Execute (nl @ ''            DROP TABLE IF EXISTS '' @ (pg_schema E @ ''.'' @ table) @ '';''
           @ nl @ ''            CREATE TABLE '' @ (pg_schema E @ ''.'' @ table)
           @ nl @ ''            AS SELECT *''
           @ nl @ ''            FROM '' @ (pg_schema E @ ''.'' @ table)
           @ nl @ ''        '') None) of
         None \<Rightarrow> (Inr (), w\<lparr>trace := trace w @
           [Execute (nl @ ''            DROP TABLE IF EXISTS '' @ (pg_schema E @ ''.'' @ table) @ '';''
           @ nl @ ''            CREATE TABLE '' @ (pg_schema E @ ''.'' @ table)
           @ nl @ ''            AS SELECT *''
           @ nl @ ''            FROM '' @ (pg_schema E @ ''.'' @ table)
           @ nl @ ''        '') None, Commit]\<rparr>)
       | Some e \<Rightarrow> (Inl e, w\<lparr>trace := trace w @
           [Execute (nl @ ''            DROP TABLE IF EXISTS '' @ (pg_schema E @ ''.'' @ table) @ '';''
           @ nl @ ''            CREATE TABLE '' @ (pg_schema E @ ''.'' @ table)
           @ nl @ ''            AS SELECT *''
           @ nl @ ''            FROM '' @ (pg_schema E @ ''.'' @ table)
           @ nl @ ''        '') None]\<rparr>))"
    by (simp only: h run_query_result)
  show "tokens (nl @ ''            DROP TABLE IF EXISTS '' @ (pg_schema E @ ''.'' @ table) @ '';''
           @ nl @ ''            CREATE TABLE '' @ (pg_schema E @ ''.'' @ table)
           @ nl @ ''            AS SELECT *''
           @ nl @ ''            FROM '' @ (pg_schema E @ ''.'' @ table)
           @ nl @ ''        '') =
      [''DROP'', ''TABLE'', ''IF'', ''EXISTS''] @ tokens ((pg_schema E @ ''.'' @ table) @ '';'')
      @ [''CREATE'', ''TABLE''] @ tokens (pg_schema E @ ''.'' @ table)
      @ [''AS'', ''SELECT'', ''*'', ''FROM''] @ tokens (pg_schema E @ ''.'' @ table)"
    by (rule revert_text)
  show "tokens ((pg_schema E @ ''.'' @ table) @ ''_backup'') \<noteq> tokens (pg_schema E @ ''.'' @ table)"
    by (rule tokens_backup)
qed

lemma word_tokens: "\<forall>c \<in> set u. \<not> is_space c \<Longrightarrow> u \<noteq> [] \<Longrightarrow> tokens u = [u]"
proof (cases u)
  case Nil
  assume "u \<noteq> []"
  with Nil show ?thesis by simp
next
  case (Cons c cs)
  assume "\<forall>c \<in> set u. \<not> is_space c"
  with Cons have c: "\<not> is_space c" and cs: "\<forall>x \<in> set cs. \<not> is_space x" by auto
  from cs have tw: "takeWhile (\<lambda>x. \<not> is_space x) cs = cs"
    and dw: "dropWhile (\<lambda>x. \<not> is_space x) cs = []"
    by (simp_all add: takeWhile_eq_all_conv)
  show ?thesis
    unfolding Cons tokens.simps(2) tw dw using c by simp
qed

section \<open>The column rule of \<open>load_item\<close> and \<open>load_items\<close>\<close>

lemma del_invalid_filter_gen:
  "del_invalid cs keys d = filter (\<lambda>kv. fst kv \<notin> set keys \<or> JStr (fst kv) \<in> set cs) d"
proof (induction keys arbitrary: d)
  case Nil
  show ?case by simp
next
  case (Cons key keys)
  show ?case
    by (auto simp: Cons.IH AList.delete_eq intro!: filter_cong)
qed

lemma del_invalid_filter:
  "del_invalid cs (map fst item) item = filter (\<lambda>kv. JStr (fst kv) \<in> set cs) item"
  unfolding del_invalid_filter_gen by (rule filter_cong) auto

lemma map_of_filter_columns:
  "map_of (filter (\<lambda>kv. JStr (fst kv) \<in> set cs) item) = map_of item |` {k. JStr k \<in> set cs}"
  by (induction item) (auto simp: restrict_map_def fun_eq_iff)

lemma execute_result:
  "execute E a w =
     (case cursor_execute E (trace w) a of
        None \<Rightarrow> (Inr (), w\<lparr>trace := trace w @ [a]\<rparr>)
      | Some e \<Rightarrow> (Inl e, w\<lparr>trace := trace w @ [a]\<rparr>))"
  by (simp add: execute_def)

lemma load_item_run:
  assumes "cached_columns E table w = (Inr cs, w1)"
  shows "load_item E item table w =
    (let kept = filter (\<lambda>kv. JStr (fst kv) \<in> set cs) item;
         a = Execute (insert_sql E table (column_list (map fst kept)) (placeholders (length kept)))
               (Some (map snd kept))
     in case cursor_execute E (trace w1) a of
          None \<Rightarrow> (Inr (), w1\<lparr>trace := trace w1 @ [a, Commit]\<rparr>)
        | Some e \<Rightarrow> (Inl e, w1\<lparr>trace := trace w1 @ [a]\<rparr>))"
  using assms
  by (simp add: load_item_def io_bind_def emit_def execute_def Let_def del_invalid_filter
           split: option.splits)

lemma insert_text:
  "insert_sql E table (column_list keys) (placeholders n) =
       nl @ ''            INSERT INTO '' @ pg_schema E @ ''.'' @ table
     @ nl @ ''            ('' @ join '', '' keys @ '')''
     @ nl @ ''            VALUES''
     @ nl @ ''            ('' @ join '', '' (replicate n ''%s'') @ '')''
     @ nl @ ''        ''"
  by (simp add: insert_sql_def column_list_def placeholders_def)

text \<open>
  Claim C1, as the code has it. Whatever the record and the table, \<open>load_item\<close> sends
  one insert statement. The statement names exactly the fields of the record whose
  names are columns of the table, in the record's order, and binds the record's values
  to them: as a mapping, what it carries is the record restricted to the table's
  columns, and the other fields are dropped without an error of \<open>load_item\<close>'s own.
  The row is committed when the database accepts the statement; when the database
  refuses it, the error is raised and nothing is committed.
\<close>

theorem load_item_sends_column_intersection:
  assumes "cached_columns E table w = (Inr cs, w1)"
  shows "let kept = filter (\<lambda>kv. JStr (fst kv) \<in> set cs) item;
             a = Execute
                   (nl @ ''            INSERT INTO '' @ pg_schema E @ ''.'' @ table
                  @ nl @ ''            ('' @ join '', '' (map fst kept) @ '')''
                  @ nl @ ''            VALUES''
                  @ nl @ ''            ('' @ join '', '' (replicate (length kept) ''%s'') @ '')''
                  @ nl @ ''        '')
                   (Some (map snd kept))
         in load_item E item table w =
              (case cursor_execute E (trace w1) a of
                 None \<Rightarrow> (Inr (), w1\<lparr>trace := trace w1 @ [a, Commit]\<rparr>)
               | Some e \<Rightarrow> (Inl e, w1\<lparr>trace := trace w1 @ [a]\<rparr>))
            \<and> map_of (zip (map fst kept) (map snd kept)) = map_of item |` {k. JStr k \<in> set cs}"
  using load_item_run [OF assms, of item]
  unfolding Let_def insert_text
  by (simp add: zip_map_fst_snd map_of_filter_columns)

lemma join_replicate_empty: "join sep (replicate n ''%s'') = [] \<longleftrightarrow> n = 0"
proof (cases n)
  case 0
  then show ?thesis by simp
next
  case (Suc m)
  then show ?thesis by (cases m) simp_all
qed

lemma join_nonempty:
  assumes "keys \<noteq> []" "\<forall>k \<in> set keys. k \<noteq> []"
  shows "join sep keys \<noteq> []"
proof (cases keys)
  case Nil
  with assms show ?thesis by simp
next
  case (Cons k ks)
  with assms have "k \<noteq> []" by simp
  with Cons show ?thesis by (cases ks) simp_all
qed

lemma empty_lists_text:
  "has_empty_list (p @ nl @ ''            ()'' @ nl @ ''        '')"
proof -
  have ln: "is_space (CHR 0x0A)" by (simp add: is_space_def)
  have "p @ nl @ ''            ()'' @ nl @ ''        '' = p @ CHR 0x0A # (''            ()'' @ nl @ ''        '')"
    by (simp add: nl_def)
  moreover have "tokens (''            ()'' @ nl @ ''        '') = [''()'']"
    by (simp add: nl_def is_space_def)
  ultimately show ?thesis
    by (simp only: has_empty_list_def tokens_append_space [OF ln]) simp
qed

text \<open>
  Claim C10. The statement that \<open>load_item\<close> builds and sends is the insert with the
  kept fields as its column list and one placeholder for each of their values. When no
  field of the record names a column of the table, the column list is \<open>()\<close>, the row
  is \<open>()\<close> and there is no value: the statement has an empty list, so it is not a valid
  insert. When at least one field names a column, the row is not \<open>()\<close>, there are as
  many values as columns and at least one, and the column list is not \<open>()\<close> (no column
  of a table has the empty name).
\<close>

theorem load_item_empty_lists:
  assumes "cached_columns E table w = (Inr cs, w1)"
  shows "let kept = filter (\<lambda>kv. JStr (fst kv) \<in> set cs) item;
             cols = ''('' @ join '', '' (map fst kept) @ '')'';
             row = ''('' @ join '', '' (replicate (length kept) ''%s'') @ '')'';
             sql = nl @ ''            INSERT INTO '' @ pg_schema E @ ''.'' @ table
                 @ nl @ ''            '' @ cols
                 @ nl @ ''            VALUES''
                 @ nl @ ''            '' @ row
                 @ nl @ ''        ''
         in (\<exists>rest. trace (snd (load_item E item table w)) =
                      trace w1 @ Execute sql (Some (map snd kept)) # rest)
          \<and> ((\<forall>kv \<in> set item. JStr (fst kv) \<notin> set cs) \<longrightarrow>
                cols = ''()'' \<and> row = ''()'' \<and> map snd kept = [] \<and> has_empty_list sql)
          \<and> ((\<exists>kv \<in> set item. JStr (fst kv) \<in> set cs) \<longrightarrow>
                row \<noteq> ''()'' \<and> map snd kept \<noteq> []
                \<and> length (map fst kept) = length (map snd kept)
                \<and> (JStr [] \<notin> set cs \<longrightarrow> cols \<noteq> ''()''))"
proof -
  define kept where "kept = filter (\<lambda>kv. JStr (fst kv) \<in> set cs) item"
  define cols where "cols = ''('' @ join '', '' (map fst kept) @ '')''"
  define row where "row = ''('' @ join '', '' (replicate (length kept) ''%s'') @ '')''"
  define sql where "sql = nl @ ''            INSERT INTO '' @ pg_schema E @ ''.'' @ table
                 @ nl @ ''            '' @ cols
                 @ nl @ ''            VALUES''
                 @ nl @ ''            '' @ row
                 @ nl @ ''        ''"
  have sql: "insert_sql E table (column_list (map fst kept)) (placeholders (length kept)) = sql"
    by (simp add: insert_sql_def column_list_def placeholders_def sql_def cols_def row_def)
  have sent: "\<exists>rest. trace (snd (load_item E item table w)) =
                      trace w1 @ Execute sql (Some (map snd kept)) # rest"
    using load_item_run [OF assms, of item]
    by (simp add: Let_def kept_def [symmetric] sql split: option.splits)
  have none: "cols = ''()'' \<and> row = ''()'' \<and> map snd kept = [] \<and> has_empty_list sql"
    if "\<forall>kv \<in> set item. JStr (fst kv) \<notin> set cs"
  proof -
    from that have k: "kept = []" by (simp add: kept_def filter_empty_conv)
    then have c: "cols = ''()''" and r: "row = ''()''" by (simp_all add: cols_def row_def)
    have "sql = (nl @ ''            INSERT INTO '' @ pg_schema E @ ''.'' @ table
                 @ nl @ ''            ()'' @ nl @ ''            VALUES'')
               @ nl @ ''            ()'' @ nl @ ''        ''"
      by (simp add: sql_def c r)
    then have "has_empty_list sql" by (simp only: empty_lists_text)
    with k c r show ?thesis by simp
  qed
  have some: "row \<noteq> ''()'' \<and> map snd kept \<noteq> []
                \<and> length (map fst kept) = length (map snd kept)
                \<and> (JStr [] \<notin> set cs \<longrightarrow> cols \<noteq> ''()'')"
    if "\<exists>kv \<in> set item. JStr (fst kv) \<in> set cs"
  proof -
    from that have k: "kept \<noteq> []" by (auto simp: kept_def filter_empty_conv)
    then have r: "row \<noteq> ''()''" by (simp add: row_def join_replicate_empty)
    have c: "cols \<noteq> ''()''" if "JStr [] \<notin> set cs"
    proof -
      from that have "\<forall>k \<in> set (map fst kept). k \<noteq> []" by (auto simp: kept_def)
      with k have "join '', '' (map fst kept) \<noteq> []" by (intro join_nonempty) simp_all
      then show ?thesis by (simp add: cols_def)
    qed
    from k r c show ?thesis by simp
  qed
  from sent none some show ?thesis
    unfolding Let_def kept_def [symmetric] cols_def [symmetric] row_def [symmetric] sql_def [symmetric]
    by blast
qed

section \<open>\<open>execute_values\<close> and \<open>load_items\<close>\<close>













section \<open>Pagination\<close>

lemma events_pages_append [simp]:
  "events_pages E (xs @ ys) = events_pages E xs @ events_pages E ys"
  by (simp add: events_pages_def)

lemma events_pages_single [simp]: "events_pages E [a] = events_request E a"
  by (simp add: events_pages_def)

lemma quiet_ret [intro!, simp]: "quiet E (ret x)"
  by (simp add: quiet_def ret_def)

lemma quiet_raise [intro!, simp]: "quiet E (raise e)"
  by (simp add: quiet_def raise_def)

lemma quiet_of_result [intro!, simp]: "quiet E (of_result r)"
  by (simp add: quiet_def of_result_def)

lemma quiet_bind [intro!]:
  assumes "quiet E m" "\<And>x. quiet E (f x)"
  shows "quiet E (io_bind m f)"
  unfolding quiet_def
proof
  fix w
  show "events_pages E (trace (snd (io_bind m f w))) = events_pages E (trace w)"
  proof (cases "m w")
    case (Pair r w')
    with assms(1) have m: "events_pages E (trace w') = events_pages E (trace w)"
      by (metis quiet_def snd_conv)
    show ?thesis
    proof (cases r)
      case (Inl e)
      with Pair m show ?thesis by (simp add: io_bind_def)
    next
      case (Inr x)
      from assms(2) [of x] have "events_pages E (trace (snd (f x w'))) = events_pages E (trace w')"
        by (simp add: quiet_def)
      with Pair Inr m show ?thesis by (simp add: io_bind_def)
    qed
  qed
qed

lemma quiet_emit: "events_request E a = [] \<Longrightarrow> quiet E (emit a)"
  by (simp add: quiet_def emit_def)

lemma quiet_execute: "events_request E a = [] \<Longrightarrow> quiet E (execute E a)"
  by (simp add: quiet_def execute_def split: option.splits)

lemma quiet_if [intro!]: "quiet E m \<Longrightarrow> quiet E n \<Longrightarrow> quiet E (if b then m else n)"
  by simp

lemma quiet_for_each [intro!]: "(\<And>x. quiet E (body x)) \<Longrightarrow> quiet E (for_each body xs)"
  by (induction xs) auto

lemma quiet_sleep [intro!, simp]: "quiet E (sleep n)"
  by (simp add: sleep_def quiet_emit)

lemma quiet_run_query [intro!, simp]: "quiet E (run_query E sql commit)"
  by (auto simp: run_query_def intro!: quiet_emit quiet_execute)

lemma quiet_pd_read_sql [intro!, simp]: "quiet E (pd_read_sql E sql)"
  by (simp add: quiet_def pd_read_sql_def)

lemma quiet_get_columns [intro!, simp]: "quiet E (get_columns E table)"
  by (auto simp: get_columns_def Let_def)

lemma quiet_cached_columns [intro!, simp]: "quiet E (cached_columns E table)"
proof -
  have "\<And>w. events_pages E (trace (snd (get_columns E table w))) = events_pages E (trace w)"
    using quiet_get_columns [of E table] by (simp add: quiet_def)
  then show ?thesis
    by (auto simp: quiet_def cached_columns_def split: option.splits prod.splits sum.splits)
      (metis snd_conv)+
qed

lemma quiet_load_item [intro!, simp]: "quiet E (load_item E item table)"
  by (auto simp: load_item_def Let_def intro!: quiet_emit quiet_execute)

lemma quiet_database_load_item [intro!, simp]: "quiet E (database_load_item E x table)"
  by (cases x) (simp_all add: database_load_item_def)

lemma quiet_delete_item [intro!, simp]: "quiet E (delete_item E table item_id secondary)"
  by (simp add: delete_item_def Let_def)

lemma quiet_get_item [intro!, simp]: "quiet E (get_item E table item_id secondary)"
  by (auto simp: get_item_def Let_def split: list.splits)

lemma quiet_datetime_utcnow [intro!, simp]: "quiet E (datetime_utcnow E)"
  by (simp add: quiet_def datetime_utcnow_def)

lemma quiet_load_event [intro!, simp]: "quiet E (load_event E event)"
  unfolding load_event_def by (intro quiet_bind quiet_of_result quiet_datetime_utcnow quiet_database_load_item)

lemma quiet_load_attendee [intro!, simp]: "quiet E (load_attendee E attendee)"
  unfolding load_attendee_def by (intro quiet_bind quiet_of_result quiet_datetime_utcnow quiet_database_load_item)

lemma quiet_load_venue [intro!, simp]: "quiet E (load_venue E venue)"
  unfolding load_venue_def by (intro quiet_bind quiet_of_result quiet_database_load_item)

lemma quiet_http_get: "path \<noteq> events_path E \<Longrightarrow> quiet E (http_get E path params)"
  by (simp add: quiet_def http_get_def Let_def)

lemma quiet_Eventbrite_get_attendees [intro!, simp]: "quiet E (Eventbrite_get_attendees E event_id page)"
  by (simp add: Eventbrite_get_attendees_def quiet_http_get events_path_def)

lemma quiet_Eventbrite_get_venue [intro!, simp]: "quiet E (Eventbrite_get_venue E venue_id page)"
  by (simp add: Eventbrite_get_venue_def quiet_http_get events_path_def)

lemma quiet_get_attendees [intro!, simp]: "quiet E (get_attendees E event_id page)"
  unfolding get_attendees_def by (intro quiet_bind quiet_if quiet_sleep quiet_ret quiet_Eventbrite_get_attendees)

lemma quiet_get_venue [intro!, simp]: "quiet E (get_venue E venue_id page)"
  unfolding get_venue_def by (intro quiet_bind quiet_if quiet_sleep quiet_ret quiet_raise quiet_Eventbrite_get_venue)

lemma quiet_replace_event [intro!, simp]: "quiet E (replace_event E event)"
  unfolding replace_event_def
  by (intro quiet_bind quiet_of_result quiet_delete_item quiet_load_event quiet_ret)

lemma quiet_load_venue_if_new [intro!, simp]: "quiet E (load_venue_if_new E event)"
  unfolding load_venue_if_new_def
  by (intro quiet_bind quiet_of_result quiet_get_item quiet_if quiet_get_venue quiet_load_venue quiet_ret)

lemma quiet_load_attendees_page [intro!, simp]: "quiet E (load_attendees_page E event_id attendees)"
  unfolding load_attendees_page_def
  by (intro quiet_bind quiet_of_result quiet_for_each quiet_if quiet_ret quiet_delete_item quiet_load_attendee)

lemma quiet_loop_lift [intro!]: "quiet E m \<Longrightarrow> quiet_loop E (lift m)"
  by (auto simp: quiet_def quiet_loop_def lift_def) (metis snd_conv)

lemma quiet_loop_bind [intro!]:
  assumes "quiet_loop E m" "\<And>x. quiet_loop E (f x)"
  shows "quiet_loop E (loop_bind m f)"
  unfolding quiet_loop_def
proof (intro allI impI)
  fix w r w'
  assume run: "loop_bind m f w = Some (r, w')"
  then consider (1) x w1 where "m w = Some (Inr x, w1)" | (2) e where "m w = Some (Inl e, w')"
    by (auto simp: loop_bind_def split: option.splits sum.splits prod.splits)
  then show "events_pages E (trace w') = events_pages E (trace w)"
  proof cases
    case 1
    with run have "f x w1 = Some (r, w')" by (simp add: loop_bind_def)
    with assms(2) [of x] have "events_pages E (trace w') = events_pages E (trace w1)"
      by (simp add: quiet_loop_def)
    moreover from assms(1) 1 have "events_pages E (trace w1) = events_pages E (trace w)"
      by (simp add: quiet_loop_def)
    ultimately show ?thesis by simp
  next
    case 2
    with assms(1) show ?thesis by (simp add: quiet_loop_def)
  qed
qed

lemma quiet_loop_if [intro!]:
  "quiet_loop E m \<Longrightarrow> quiet_loop E n \<Longrightarrow> quiet_loop E (if b then m else n)"
  by simp

lemma quiet_loop_for_each [intro!]:
  "(\<And>x. quiet_loop E (body x)) \<Longrightarrow> quiet_loop E (loop_for_each body xs)"
  by (induction xs) auto

lemma quiet_attendees_loop [intro!, simp]: "quiet_loop E (attendees_loop E fuel event_id attendees)"
proof (induction fuel arbitrary: attendees)
  case 0
  show ?case by (simp add: quiet_loop_def)
next
  case (Suc fuel)
  show ?case
    unfolding attendees_loop.simps
    by (intro quiet_loop_if quiet_loop_bind quiet_loop_lift quiet_ret quiet_of_result
          quiet_load_attendees_page quiet_get_attendees Suc.IH)
qed

lemma quiet_process_event [intro!, simp]: "quiet_loop E (process_event E fuel event)"
  unfolding process_event_def
  by (intro quiet_loop_if quiet_loop_bind quiet_loop_lift quiet_ret quiet_replace_event
        quiet_load_venue_if_new quiet_get_attendees quiet_attendees_loop quiet_sleep)

lemma quiet_process_page: "quiet_loop E (process_page E fuel events)"
  unfolding process_page_def
  by (intro quiet_loop_bind quiet_loop_lift quiet_of_result quiet_loop_for_each quiet_process_event)

lemma quiet_refresh_views: "quiet E (refresh_views E)"
  unfolding refresh_views_def
  by (intro quiet_for_each) (simp add: refresh_view_def Let_def)

lemma quiet_last_event_load_date: "quiet E (last_event_load_date E)"
  unfolding last_event_load_date_def Let_def
  by (intro quiet_bind quiet_pd_read_sql)
     (auto split: list.splits json.splits)

lemma quiet_first_start: "quiet E (first_start E)"
  unfolding first_start_def
proof (intro quiet_bind quiet_last_event_load_date quiet_if quiet_ret)
  fix x
  show "quiet E (\<lambda>w. case x of
            JTime t \<Rightarrow>
              (let one_day_ago = now E (trace w) - one_day;
                   first_event = min one_day_ago t
               in (Inr (JStr (take 10 (str_of E (JTime first_event)))), w))
          | _ \<Rightarrow> (Inl TypeError, w))"
    by (cases x) (simp_all add: quiet_def Let_def)
qed

lemma first_start_value:
  assumes "first_start E w = (Inr start, w1)"
  shows "start = JNull \<or> (\<exists>s. start = JStr s)"
proof -
  obtain r w' where l: "last_event_load_date E w = (r, w')" by (cases "last_event_load_date E w")
  show ?thesis
    using assms l
    by (auto simp: first_start_def io_bind_def ret_def Let_def
             split: sum.splits if_splits json.splits)
qed

lemma events_page_fields [simp]:
  "truthy (events_page c n p evs)"
  "subscript (events_page c n p evs) ''events'' = Inr (JList evs)"
  "subscript2 (events_page c n p evs) ''pagination'' ''has_more_items'' = Inr (JBool (p < n))"
  "next_page (events_page c n p evs) = Inr (JInt (int (Suc p)))"
  "has_events (events_page c n p evs) = Inr (c > 0)"
  by (simp_all add: events_page_def subscript2_def next_page_def has_events_def)

lemma get_events_page:
  assumes api: "\<And>tr params. map_of params ''page'' = Some page \<Longrightarrow>
                  requests_get E tr (events_path E) params = (200, body)"
    and body: "truthy body"
    and start: "start = JNull \<or> (\<exists>s. start = JStr s)"
  shows "\<exists>params. get_events E start page w =
            (Inr body, w\<lparr>trace := trace w @ [HttpGet (events_path E) params]\<rparr>)
          \<and> map_of params ''page'' = Some page"
proof -
  define base where "base = [(''token'', JStr (eventbrite_oauth E)), (''page'', page)]"
  define params where "params =
    (if truthy start
     then AList.update ''start_date.range_start'' (JStr (case start of JStr s \<Rightarrow> s @ ''T0:00:00'')) base
     else base)"
  have page: "map_of params ''page'' = Some page"
    by (simp add: params_def base_def update_conv')
  have path: "''/organizers/'' @ py_str E (JStr (eventbrite_org E)) @ ''/events/'' = events_path E"
    by (simp add: py_str_def events_path_def)
  have client: "Eventbrite_get_events E (Some (JStr (eventbrite_org E))) start JNull page w =
      (Inr body, w\<lparr>trace := trace w @ [HttpGet (events_path E) params]\<rparr>)"
    using start api [OF page, of "trace w"]
    unfolding Eventbrite_get_events_def option.case Let_def path base_def [symmetric]
    by (auto simp: io_bind_def ret_def of_result_def http_get_def Let_def params_def)
  have "get_events E start page w =
      (Inr body, w\<lparr>trace := trace w @ [HttpGet (events_path E) params]\<rparr>)"
    using client body by (simp add: get_events_def io_bind_def ret_def)
  with page show ?thesis by blast
qed

lemma events_loop_pages:
  assumes api: "\<And>tr params p. 1 \<le> p \<Longrightarrow> p \<le> n \<Longrightarrow> map_of params ''page'' = Some (JInt (int p)) \<Longrightarrow>
                  requests_get E tr (events_path E) params = (200, events_page c n p (evs p))"
    and pages: "\<And>p w. 1 \<le> p \<Longrightarrow> p \<le> n \<Longrightarrow>
                  \<exists>w'. process_page E inner (events_page c n p (evs p)) w = Some (Inr (), w')"
    and start: "start = JNull \<or> (\<exists>s. start = JStr s)"
  shows "1 \<le> p \<Longrightarrow> p \<le> n \<Longrightarrow> n - p < fuel \<Longrightarrow>
    \<exists>w'. events_loop E inner fuel start (events_page c n p (evs p)) w = Some (Inr (), w')
        \<and> events_pages E (trace w') =
            events_pages E (trace w) @ map (\<lambda>q. Some (JInt (int q))) [Suc p..<Suc n]"
proof (induction fuel arbitrary: p w)
  case 0
  then show ?case by simp
next
  case (Suc fuel)
  from pages [OF Suc.prems(1,2), of w] obtain w1
    where w1: "process_page E inner (events_page c n p (evs p)) w = Some (Inr (), w1)" by blast
  with quiet_process_page [of E inner "events_page c n p (evs p)"]
  have q1: "events_pages E (trace w1) = events_pages E (trace w)"
    by (simp add: quiet_loop_def)
  show ?case
  proof (cases "p < n")
    case False
    with Suc.prems have "p = n" by simp
    with w1 q1 show ?thesis
      by (simp add: loop_bind_def lift_def of_result_def ret_def)
  next
    case True
    then have next1: "1 \<le> Suc p" "Suc p \<le> n" "n - Suc p < fuel"
      using Suc.prems by simp_all
    from get_events_page [of "JInt (int (Suc p))" E "events_page c n (Suc p) (evs (Suc p))" start w1]
      api [OF next1(1,2)] start
    obtain params where
      g: "get_events E start (JInt (int (Suc p))) w1 =
            (Inr (events_page c n (Suc p) (evs (Suc p))),
             w1\<lparr>trace := trace w1 @ [HttpGet (events_path E) params]\<rparr>)"
      and pg: "map_of params ''page'' = Some (JInt (int (Suc p)))"
      by auto
    let ?w2 = "w1\<lparr>trace := trace w1 @ [HttpGet (events_path E) params]\<rparr>"
    from Suc.IH [OF next1, of ?w2] obtain w' where
      l: "events_loop E inner fuel start (events_page c n (Suc p) (evs (Suc p))) ?w2 = Some (Inr (), w')"
      and t: "events_pages E (trace w') =
                events_pages E (trace ?w2) @ map (\<lambda>q. Some (JInt (int q))) [Suc (Suc p)..<Suc n]"
      by blast
    have "[Suc p..<Suc n] = Suc p # [Suc (Suc p)..<Suc n]"
      using True by (simp add: upt_conv_Cons)
    with t pg q1 have "events_pages E (trace w') =
        events_pages E (trace w) @ map (\<lambda>q. Some (JInt (int q))) [Suc p..<Suc n]"
      by simp
    moreover have "events_loop E inner (Suc fuel) start (events_page c n p (evs p)) w = Some (Inr (), w')"
      using w1 g l True
      by (simp add: loop_bind_def lift_def of_result_def ret_def)
    ultimately show ?thesis by blast
  qed
qed

lemma run_pages:
  assumes api: "\<And>tr params p. 1 \<le> p \<Longrightarrow> p \<le> n \<Longrightarrow> map_of params ''page'' = Some (JInt (int p)) \<Longrightarrow>
                  requests_get E tr (events_path E) params = (200, events_page c n p (evs p))"
    and pages: "\<And>p w. 1 \<le> p \<Longrightarrow> p \<le> n \<Longrightarrow>
                  \<exists>w'. process_page E fuel (events_page c n p (evs p)) w = Some (Inr (), w')"
    and first: "first_start E w = (Inr start, w1)"
    and count: "0 < c"
    and n: "1 \<le> n" "n \<le> fuel"
  shows "\<exists>w3. (\<exists>w2. events_loop E fuel fuel start (events_page c n 1 (evs 1)) w2 = Some (Inr (), w3))
           \<and> run E fuel w = Some (refresh_views E w3)
           \<and> events_pages E (trace (snd (refresh_views E w3))) =
               events_pages E (trace w) @ map (\<lambda>p. Some (JInt (int p))) [1..<Suc n]"
proof -
  have start: "start = JNull \<or> (\<exists>s. start = JStr s)"
    using first by (rule first_start_value)
  have "events_pages E (trace (snd (first_start E w))) = events_pages E (trace w)"
    using quiet_first_start [of E] unfolding quiet_def by blast
  then have q0: "events_pages E (trace w1) = events_pages E (trace w)"
    by (simp add: first)
  have api1: "\<And>tr params. map_of params ''page'' = Some (JInt 1) \<Longrightarrow>
      requests_get E tr (events_path E) params = (200, events_page c n 1 (evs 1))"
    using api [of 1] n by simp
  from get_events_page [OF api1 events_page_fields(1) start, where w = w1]
  obtain params where
    g: "get_events E start (JInt 1) w1 =
          (Inr (events_page c n 1 (evs 1)), w1\<lparr>trace := trace w1 @ [HttpGet (events_path E) params]\<rparr>)"
    and pg: "map_of params ''page'' = Some (JInt 1)"
    by blast
  define w2 where "w2 = w1\<lparr>trace := trace w1 @ [HttpGet (events_path E) params]\<rparr>"
  have q2: "events_pages E (trace w2) = events_pages E (trace w) @ [Some (JInt 1)]"
    by (simp add: w2_def q0 pg)
  have "1 \<le> (1::nat)" "n - 1 < fuel" using n by simp_all
  from events_loop_pages [OF api pages start this(1) n(1) this(2), where w = w2]
  obtain w3 where
    l: "events_loop E fuel fuel start (events_page c n 1 (evs 1)) w2 = Some (Inr (), w3)"
    and t: "events_pages E (trace w3) =
              events_pages E (trace w2) @ map (\<lambda>q. Some (JInt (int q))) [Suc 1..<Suc n]"
    by blast
  have q4: "events_pages E (trace (snd (refresh_views E w3))) = events_pages E (trace w3)"
    using quiet_refresh_views [of E] unfolding quiet_def by blast
  have "[1..<Suc n] = 1 # [Suc 1..<Suc n]"
    using n by (simp add: upt_conv_Cons)
  then have pages_eq: "events_pages E (trace (snd (refresh_views E w3))) =
      events_pages E (trace w) @ map (\<lambda>p. Some (JInt (int p))) [1..<Suc n]"
    by (simp add: q4 t q2)
  have s1: "lift (first_start E) w = Some (Inr start, w1)"
    by (simp add: lift_def first)
  have s2: "lift (get_events E start (JInt 1)) w1 = Some (Inr (events_page c n 1 (evs 1)), w2)"
    by (simp add: lift_def g w2_def)
  have s3: "lift (of_result (Inr (0 < c))) w2 = Some (Inr True, w2)"
    using count by (simp add: lift_def of_result_def)
  have s4: "lift (refresh_views E) w3 = Some (refresh_views E w3)"
    by (simp add: lift_def)
  have "run E fuel w = Some (refresh_views E w3)"
    unfolding run_def
    by (simp add: loop_bind_def s1 s2 s3 s4 l del: One_nat_def)
  with pages_eq l show ?thesis by blast
qed


section \<open>Sample runs\<close>

lemma wc_columns [simp]:
  "columns wc ''events'' = Some [JStr ''id'', JStr ''name'']"
  "columns wc ''t'' = Some [JStr ''a'', JStr ''b'']"
  "columns wc ''venues'' = Some [JStr ''id'', JStr ''city'', JStr ''latitude'',
                                      JStr ''longitude'', JStr ''load_datetime'']"
  by (simp_all add: wc_def)

lemma cached_columns_hit: "columns w table = Some cs \<Longrightarrow> cached_columns E table w = (Inr cs, w)"
  by (simp add: cached_columns_def)

lemma E0_fields [simp]:
  "pg_schema E0 = ''public''"
  "eventbrite_oauth E0 = ''secret''"
  "eventbrite_org E0 = ''42''"
  "read_sql E0 = (\<lambda>tr sql. [])"
  "requests_get E0 = (\<lambda>tr path params. (404, JNull))"
  "cursor_execute E0 = (\<lambda>tr a. None)"
  "float_of E0 = (\<lambda>v. Inr (JFloat 0))"
  "arrow_get E0 = (\<lambda>v. Inr (JTime 0))"
  by (simp_all add: E0_def)

lemma Epg_fields [simp]:
  "pg_schema Epg = ''public''"
  "cursor_execute Epg = (\<lambda>tr a. postgres_refuses a)"
  by (simp_all add: Epg_def)

lemma w0_fields [simp]: "trace w0 = []" "columns w0 = Map.empty"
  by (simp_all add: w0_def)

lemma kept_item1:
  "filter (\<lambda>kv. JStr (fst kv) \<in> set [JStr ''id'', JStr ''name'']) item1 =
     [(''id'', JStr ''7''), (''name'', JStr ''Talk'')]"
  by (simp add: item1_def)

lemma sample_texts:
  "column_list [''id'', ''name''] = ''(id, name)''"
  "placeholders (Suc (Suc 0)) = ''(%s, %s)''"
  "column_list [''a''] = ''(a)''"
  "column_list [''id'', ''latitude'', ''longitude'', ''city''] = ''(id, latitude, longitude, city)''"
  "placeholders (Suc (Suc (Suc (Suc 0)))) = ''(%s, %s, %s, %s)''"
  by (simp_all add: column_list_def placeholders_def)

theorem load_item_sends_column_intersection_witness:
  "load_item E0 item1 ''events'' wc =
     (Inr (), wc\<lparr>trace := trace wc @
        [Execute (nl @ ''            INSERT INTO public.events''
                @ nl @ ''            (id, name)''
                @ nl @ ''            VALUES''
                @ nl @ ''            (%s, %s)''
                @ nl @ ''        '')
           (Some [JStr ''7'', JStr ''Talk'']), Commit]\<rparr>)
   \<and> map_of [(''id'', JStr ''7''), (''name'', JStr ''Talk'')] =
       map_of item1 |` {k. JStr k \<in> set [JStr ''id'', JStr ''name'']}"
proof -
  have h: "cached_columns E0 ''events'' wc = (Inr [JStr ''id'', JStr ''name''], wc)"
    by (simp add: cached_columns_hit)
  from load_item_sends_column_intersection [OF h, of item1]
  show ?thesis
    unfolding Let_def kept_item1 by simp
qed

lemma empty_insert_refused:
  "postgres_refuses
     (Execute (nl @ ''            INSERT INTO '' @ schema @ ''.'' @ table
             @ nl @ ''            ()''
             @ nl @ ''            VALUES''
             @ nl @ ''            ()''
             @ nl @ ''        '') params) = Some (DatabaseError ''syntax error'')"
proof -
  have "has_empty_list ((nl @ ''            INSERT INTO '' @ schema @ ''.'' @ table
             @ nl @ ''            ()'' @ nl @ ''            VALUES'')
             @ nl @ ''            ()'' @ nl @ ''        '')"
    by (rule empty_lists_text)
  then have "has_empty_list (nl @ ''            INSERT INTO '' @ schema @ ''.'' @ table
             @ nl @ ''            ()''
             @ nl @ ''            VALUES''
             @ nl @ ''            ()''
             @ nl @ ''        '')"
    by simp
  then show ?thesis
    by (simp only: postgres_refuses_def action.case Let_def if_True)
qed

theorem load_item_empty_record_counterexample:
  "load_item Epg [(''colour'', JStr ''red'')] ''events'' wc =
     (Inl (DatabaseError ''syntax error''),
      wc\<lparr>trace := trace wc @
        [Execute (nl @ ''            INSERT INTO public.events''
                @ nl @ ''            ()''
                @ nl @ ''            VALUES''
                @ nl @ ''            ()''
                @ nl @ ''        '')
           (Some [])]\<rparr>)"
proof -
  have h: "cached_columns Epg ''events'' wc = (Inr [JStr ''id'', JStr ''name''], wc)"
    by (simp add: cached_columns_hit)
  have k: "filter (\<lambda>kv. JStr (fst kv) \<in> set [JStr ''id'', JStr ''name'']) [(''colour'', JStr ''red'')] = []"
    by simp
  have t: "insert_sql Epg ''events'' (column_list []) (placeholders 0) =
      nl @ ''            INSERT INTO '' @ ''public'' @ ''.'' @ ''events''
             @ nl @ ''            ()''
             @ nl @ ''            VALUES''
             @ nl @ ''            ()''
             @ nl @ ''        ''"
    by (simp add: insert_sql_def column_list_def placeholders_def)
  have "load_item Epg [(''colour'', JStr ''red'')] ''events'' wc =
      (Inl (DatabaseError ''syntax error''),
       wc\<lparr>trace := trace wc @
         [Execute (nl @ ''            INSERT INTO '' @ ''public'' @ ''.'' @ ''events''
             @ nl @ ''            ()''
             @ nl @ ''            VALUES''
             @ nl @ ''            ()''
             @ nl @ ''        '') (Some [])]\<rparr>)"
    using load_item_run [OF h, of "[(''colour'', JStr ''red'')]"]
    unfolding Let_def k list.map list.size t Epg_fields empty_insert_refused
    by simp
  then show ?thesis by simp
qed

theorem load_item_empty_lists_witness:
  "(\<exists>rest. trace (snd (load_item E0 [(''colour'', JStr ''red'')] ''events'' wc)) =
       trace wc @
       Execute (nl @ ''            INSERT INTO public.events''
              @ nl @ ''            ()''
              @ nl @ ''            VALUES''
              @ nl @ ''            ()''
              @ nl @ ''        '') (Some []) # rest)
   \<and> has_empty_list (nl @ ''            INSERT INTO public.events''
              @ nl @ ''            ()''
              @ nl @ ''            VALUES''
              @ nl @ ''            ()''
              @ nl @ ''        '')
   \<and> (\<exists>rest. trace (snd (load_item E0 item1 ''events'' wc)) =
       trace wc @
       Execute (nl @ ''            INSERT INTO public.events''
              @ nl @ ''            (id, name)''
              @ nl @ ''            VALUES''
              @ nl @ ''            (%s, %s)''
              @ nl @ ''        '') (Some [JStr ''7'', JStr ''Talk'']) # rest)"
proof -
  have h: "cached_columns E0 ''events'' wc = (Inr [JStr ''id'', JStr ''name''], wc)"
    by (simp add: cached_columns_hit)
  have k: "filter (\<lambda>kv. JStr (fst kv) \<in> set [JStr ''id'', JStr ''name'']) [(''colour'', JStr ''red'')] = []"
    by simp
  have none: "\<forall>kv \<in> set [(''colour'', JStr ''red'')]. JStr (fst kv) \<notin> set [JStr ''id'', JStr ''name'']"
    by simp
  have some: "\<exists>kv \<in> set item1. JStr (fst kv) \<in> set [JStr ''id'', JStr ''name'']"
    by (simp add: item1_def)
  from load_item_empty_lists [OF h, of "[(''colour'', JStr ''red'')]"] none
  have a: "(\<exists>rest. trace (snd (load_item E0 [(''colour'', JStr ''red'')] ''events'' wc)) =
       trace wc @
       Execute (nl @ ''            INSERT INTO public.events''
              @ nl @ ''            ()''
              @ nl @ ''            VALUES''
              @ nl @ ''            ()''
              @ nl @ ''        '') (Some []) # rest)
     \<and> has_empty_list (nl @ ''            INSERT INTO public.events''
              @ nl @ ''            ()''
              @ nl @ ''            VALUES''
              @ nl @ ''            ()''
              @ nl @ ''        '')"
    unfolding Let_def k by simp
  from load_item_empty_lists [OF h, of item1] some
  have b: "\<exists>rest. trace (snd (load_item E0 item1 ''events'' wc)) =
       trace wc @
       Execute (nl @ ''            INSERT INTO public.events''
              @ nl @ ''            (id, name)''
              @ nl @ ''            VALUES''
              @ nl @ ''            (%s, %s)''
              @ nl @ ''        '') (Some [JStr ''7'', JStr ''Talk'']) # rest"
    unfolding Let_def kept_item1 by simp
  from a b show ?thesis by blast
qed



lemma revert_sample_tokens:
  "tokens (nl @ ''            DROP TABLE IF EXISTS '' @ ''public.events'' @ '';''
         @ nl @ ''            CREATE TABLE '' @ ''public.events''
         @ nl @ ''            AS SELECT *''
         @ nl @ ''            FROM '' @ ''public.events''
         @ nl @ ''        '')
     = [''DROP'', ''TABLE'', ''IF'', ''EXISTS'', ''public.events;'', ''CREATE'', ''TABLE'',
        ''public.events'', ''AS'', ''SELECT'', ''*'', ''FROM'', ''public.events'']"
proof -
  have "tokens ''public.events'' = [''public.events'']"
    by (rule word_tokens) (simp_all add: is_space_def)
  moreover have "tokens (''public.events'' @ '';'') = [''public.events;'']"
    using word_tokens [of "''public.events;''"] by (simp add: is_space_def)
  ultimately show ?thesis
    unfolding revert_text by simp
qed

theorem revert_table_refused_counterexample:
  "revert_table Epg ''events'' w0 =
     (Inl (DatabaseError ''undefined table''),
      w0\<lparr>trace :=
        [Execute (nl @ ''            DROP TABLE IF EXISTS public.events;''
                @ nl @ ''            CREATE TABLE public.events''
                @ nl @ ''            AS SELECT *''
                @ nl @ ''            FROM public.events''
                @ nl @ ''        '') None]\<rparr>)"
proof -
  define sql where "sql = nl @ ''            DROP TABLE IF EXISTS '' @ ''public.events'' @ '';''
         @ nl @ ''            CREATE TABLE '' @ ''public.events''
         @ nl @ ''            AS SELECT *''
         @ nl @ ''            FROM '' @ ''public.events''
         @ nl @ ''        ''"
  have ts: "tokens sql = [''DROP'', ''TABLE'', ''IF'', ''EXISTS'', ''public.events;'', ''CREATE'', ''TABLE'',
        ''public.events'', ''AS'', ''SELECT'', ''*'', ''FROM'', ''public.events'']"
    unfolding sql_def by (rule revert_sample_tokens)
  have refused: "postgres_refuses (Execute sql None) = Some (DatabaseError ''undefined table'')"
    unfolding postgres_refuses_def action.case Let_def has_empty_list_def ts
    by simp
  have "revert_table Epg ''events'' w0 = run_query Epg sql True w0"
    by (simp add: revert_table_def Let_def sql_def)
  then have "revert_table Epg ''events'' w0 =
      (Inl (DatabaseError ''undefined table''), w0\<lparr>trace := [Execute sql None]\<rparr>)"
    unfolding run_query_result Epg_fields refused by simp
  then show ?thesis
    by (simp add: sql_def)
qed

lemma E5_fields [simp]:
  "pg_schema E5 = ''public''"
  "read_sql E5 tr query5 = [[(''id'', JStr ''1''), (''event_id'', JStr ''7'')]]"
  by (simp_all add: E5_def E0_def)

text \<open>
  Claim C5, on the code. \<open>get_item\<close> reads the data frame before it appends the
  secondary filters to the statement, so the filters never reach the database. Asked
  for attendee 1 of event 8 in a database whose attendee 1 belongs to event 7, it sends
  the query by identifier alone and returns that row, where the claim has an absent
  result.
\<close>
theorem get_item_ignores_secondary_filter:
  "get_item E5 ''attendees'' (JStr ''1'') (Some [(''event_id'', JStr ''8'')]) w0 =
     (Inr (JDict [(''id'', JStr ''1''), (''event_id'', JStr ''7'')]),
      w0\<lparr>trace := [ReadSql query5]\<rparr>)"
proof -
  have q: "''SELECT * FROM '' @ pg_schema E5 @ ''.'' @ ''attendees'' @ '' WHERE id='' @ sq
             @ py_str E5 (JStr ''1'') @ sq = query5"
    by (simp add: py_str_def query5_def)
  show ?thesis
    unfolding get_item_def Let_def q
    by (simp add: pd_read_sql_def io_bind_def ret_def)
qed

text \<open>
  Claim C2, on the code. When the API refuses the request, \<open>get_events\<close> sleeps 3600
  and then calls the client without the organisation: \<open>TypeError\<close>, and no second
  request. \<open>get_venue\<close> sleeps 3600 and then names the unbound \<open>event_id\<close>:
  \<open>NameError\<close>, and no second request. Only \<open>get_attendees\<close> sends the same request
  again (lemma \<open>get_attendees_retries_once\<close>).
\<close>
theorem retry_raises_for_events_and_venue:
  "get_events E0 JNull (JInt 1) w0 =
     (Inl TypeError,
      w0\<lparr>trace := [HttpGet ''/organizers/42/events/'' [(''token'', JStr ''secret''), (''page'', JInt 1)],
                    Sleep 3600]\<rparr>)
   \<and> get_venue E0 (JStr ''v1'') (JInt 1) w0 =
     (Inl (NameError ''event_id''),
      w0\<lparr>trace := [HttpGet ''/venues/v1'' [(''token'', JStr ''secret''), (''page'', JInt 1)],
                    Sleep 3600]\<rparr>)"
proof
  show "get_events E0 JNull (JInt 1) w0 =
     (Inl TypeError,
      w0\<lparr>trace := [HttpGet ''/organizers/42/events/'' [(''token'', JStr ''secret''), (''page'', JInt 1)],
                    Sleep 3600]\<rparr>)"
    by (simp add: get_events_def Eventbrite_get_events_def http_get_def sleep_def emit_def
          io_bind_def ret_def raise_def Let_def py_str_def)
  show "get_venue E0 (JStr ''v1'') (JInt 1) w0 =
     (Inl (NameError ''event_id''),
      w0\<lparr>trace := [HttpGet ''/venues/v1'' [(''token'', JStr ''secret''), (''page'', JInt 1)],
                    Sleep 3600]\<rparr>)"
    by (simp add: get_venue_def Eventbrite_get_venue_def http_get_def sleep_def emit_def
          io_bind_def ret_def raise_def Let_def py_str_def)
qed

lemma get_attendees_retries_once:
  "get_attendees E0 (JStr ''e1'') (JInt 1) w0 =
     (Inr JNull,
      w0\<lparr>trace := [HttpGet ''/events/e1/attendees'' [(''token'', JStr ''secret''), (''page'', JInt 1)],
                    Sleep 3600,
                    HttpGet ''/events/e1/attendees'' [(''token'', JStr ''secret''), (''page'', JInt 1)]]\<rparr>)"
  by (simp add: get_attendees_def Eventbrite_get_attendees_def
        http_get_def sleep_def emit_def io_bind_def ret_def Let_def py_str_def)

text \<open>
  Claim C3, on the code. \<open>load_venue\<close> never sets \<open>load_datetime\<close>: with a venues
  table that has the column, the row it inserts for a venue as the API describes it has
  the columns \<open>id\<close>, \<open>latitude\<close>, \<open>longitude\<close> and \<open>city\<close> only.
\<close>
theorem load_venue_sets_no_load_datetime:
  "load_venue E0 venue3 wc =
     (Inr (), wc\<lparr>trace := trace wc @
        [Execute (insert_sql E0 ''venues'' ''(id, latitude, longitude, city)'' ''(%s, %s, %s, %s)'')
           (Some [JStr ''v1'', JFloat 0, JFloat 0, JStr ''Oslo'']), Commit]\<rparr>)"
proof -
  have h: "cached_columns E0 ''venues'' wc =
      (Inr [JStr ''id'', JStr ''city'', JStr ''latitude'', JStr ''longitude'', JStr ''load_datetime''], wc)"
    by (simp add: cached_columns_hit)
  have v: "load_venue E0 venue3 wc =
      load_item E0 [(''id'', JStr ''v1''), (''address'', JDict [(''city'', JStr ''Oslo'')]),
                    (''latitude'', JFloat 0), (''longitude'', JFloat 0), (''city'', JStr ''Oslo'')]
        ''venues'' wc"
    by (simp add: load_venue_def venue3_def io_bind_def of_result_def subscript2_def to_float_def
          database_load_item_def)
  show ?thesis
    unfolding v using load_item_run [OF h]
    by (simp add: Let_def sample_texts)
qed

section \<open>A run over two pages\<close>

text \<open>
  The sample API has two pages of events. Each stage of \<open>run\<close> is evaluated on it in
  turn: the database is empty and accepts every statement.
\<close>

lemma ok_fst: "fst (m w) = Inr x \<Longrightarrow> \<exists>w'. m w = (Inr x, w')"
  by (cases "m w") simp

lemma io_bind_step: "m w = (Inr x, w1) \<Longrightarrow> io_bind m f w = f x w1"
  by (simp add: io_bind_def)

lemma loop_bind_step: "m w = Some (Inr x, w1) \<Longrightarrow> loop_bind m f w = f x w1"
  by (simp add: loop_bind_def)

lemma lift_step: "m w = (r, w1) \<Longrightarrow> lift m w = Some (r, w1)"
  by (simp add: lift_def)

lemma cached_columns_empty_db:
  assumes "read_sql E = (\<lambda>tr sql. [])"
  shows "\<exists>cs w'. cached_columns E table w = (Inr cs, w')"
proof (cases "columns w table")
  case None
  with assms show ?thesis
    by (simp add: cached_columns_def get_columns_def pd_read_sql_def io_bind_def of_result_def Let_def)
next
  case (Some cs)
  then show ?thesis by (simp add: cached_columns_def)
qed

lemma load_item_empty_db:
  assumes db: "read_sql E = (\<lambda>tr sql. [])" and ok: "cursor_execute E = (\<lambda>tr a. None)"
  shows "\<exists>w'. load_item E item table w = (Inr (), w')"
proof -
  from cached_columns_empty_db [OF db, of table w]
  obtain cs w1 where "cached_columns E table w = (Inr cs, w1)" by blast
  then show ?thesis
    by (simp add: load_item_def io_bind_def execute_def emit_def Let_def ok)
qed

lemma delete_item_ok:
  assumes ok: "cursor_execute E = (\<lambda>tr a. None)"
  shows "\<exists>w'. delete_item E table item_id secondary w = (Inr (), w')"
  by (simp add: delete_item_def run_query_def io_bind_def execute_def emit_def Let_def ok)

lemma get_item_empty_db:
  assumes "read_sql E = (\<lambda>tr sql. [])"
  shows "\<exists>w'. get_item E table item_id secondary w = (Inr JNull, w')"
  using assms by (simp add: get_item_def pd_read_sql_def io_bind_def ret_def Let_def)

lemma E7_fields [simp]:
  "read_sql E7 = (\<lambda>tr sql. [])"
  "cursor_execute E7 = (\<lambda>tr a. None)"
  "arrow_get E7 = (\<lambda>v. Inr (JTime 0))"
  "eventbrite_org E7 = ''42''"
  "eventbrite_oauth E7 = ''secret''"
  "pg_schema E7 = ''public''"
  "events_path E7 = ''/organizers/42/events/''"
  by (simp_all add: E7_def events_path_def)

lemma E7_events [simp]:
  "map_of params ''page'' = Some (JInt i) \<Longrightarrow>
     requests_get E7 tr ''/organizers/42/events/'' params = (200, events_page 2 2 (nat i) [event7])"
  by (simp add: E7_def)

lemma E7_others [simp]:
  "path \<noteq> ''/organizers/42/events/'' \<Longrightarrow> requests_get E7 tr path params = (200, no_attendees)"
  by (simp add: E7_def)

lemma io_bind_of_result: "io_bind (of_result (Inr v)) f = f v"
  by (simp add: io_bind_def of_result_def)

lemma io_bind_utcnow: "io_bind (datetime_utcnow E) f w = f (JTime (utcnow E (trace w))) w"
  by (simp add: io_bind_def datetime_utcnow_def)

lemma e7_load_event: "\<exists>w'. load_event E7 event7 w = (Inr (), w')"
  unfolding load_event_def
  apply (simp add: event7_def subscript2_def io_bind_of_result io_bind_utcnow database_load_item_def)
  apply (rule load_item_empty_db)
   apply simp
  apply simp
  done

lemma e7_replace_event: "\<exists>w'. replace_event E7 event7 w = (Inr (JStr ''e1''), w')"
proof -
  from delete_item_ok [of E7 "''events''" "JStr ''e1''" None w]
  have "\<exists>w'. delete_item E7 ''events'' (JStr ''e1'') None w = (Inr (), w')" by simp
  then
  obtain w1 where d: "delete_item E7 ''events'' (JStr ''e1'') None w = (Inr (), w1)" by blast
  from e7_load_event [of w1]
  obtain w2 where l: "load_event E7 event7 w1 = (Inr (), w2)" by blast
  have s: "subscript2 event7 ''name'' ''text'' = Inr (JStr ''Talk'')"
    "subscript event7 ''id'' = Inr (JStr ''e1'')"
    by (simp_all add: event7_def subscript2_def)
  have "replace_event E7 event7 w = (Inr (JStr ''e1''), w2)"
    unfolding replace_event_def s
    by (simp add: io_bind_def of_result_def ret_def d l)
  then show ?thesis by blast
qed

lemma e7_load_venue_if_new: "\<exists>w'. load_venue_if_new E7 event7 w = (Inr (), w')"
proof -
  from get_item_empty_db [of E7 "''venues''" JNull None w]
  obtain w1 where g: "get_item E7 ''venues'' JNull None w = (Inr JNull, w1)" by auto
  have s: "subscript event7 ''venue_id'' = Inr JNull"
    by (simp add: event7_def)
  have "load_venue_if_new E7 event7 w = (Inr (), w1)"
    unfolding load_venue_if_new_def s
    by (simp add: io_bind_def of_result_def ret_def g)
  then show ?thesis by blast
qed

lemma e7_get_attendees: "\<exists>w'. get_attendees E7 (JStr ''e1'') page w = (Inr no_attendees, w')"
proof -
  have t: "truthy no_attendees" by (simp add: no_attendees_def)
  have "Eventbrite_get_attendees E7 (JStr ''e1'') page w =
      (Inr no_attendees,
       w\<lparr>trace := trace w @ [HttpGet ''/events/e1/attendees''
                                [(''token'', JStr ''secret''), (''page'', page)]]\<rparr>)"
    by (simp add: Eventbrite_get_attendees_def http_get_def Let_def py_str_def)
  then show ?thesis
    by (simp add: get_attendees_def io_bind_def ret_def t)
qed

lemma e7_attendees_loop:
  "attendees_loop E7 (Suc fuel) event_id no_attendees w = Some (Inr (), w)"
proof -
  have s: "truthy no_attendees"
    "subscript no_attendees ''attendees'' = Inr (JList [])"
    "subscript2 no_attendees ''pagination'' ''has_more_items'' = Inr (JBool False)"
    by (simp_all add: no_attendees_def subscript2_def)
  show ?thesis
    by (simp add: s load_attendees_page_def loop_bind_def lift_def io_bind_def of_result_def ret_def)
qed

lemma e7_process_event: "\<exists>w'. process_event E7 (Suc fuel) event7 w = Some (Inr (), w')"
proof -
  from e7_replace_event [of w]
  obtain w1 where a: "replace_event E7 event7 w = (Inr (JStr ''e1''), w1)" by blast
  from e7_load_venue_if_new [of w1]
  obtain w2 where b: "load_venue_if_new E7 event7 w1 = (Inr (), w2)" by blast
  from e7_get_attendees [of "JInt 1" w2]
  obtain w3 where c: "get_attendees E7 (JStr ''e1'') (JInt 1) w2 = (Inr no_attendees, w3)" by blast
  have t: "truthy event7" by (simp add: event7_def)
  have "process_event E7 (Suc fuel) event7 w = Some (sleep 60 w3)"
    unfolding process_event_def
    by (simp add: t loop_bind_def lift_def a b c e7_attendees_loop del: attendees_loop.simps)
  then show ?thesis by (simp add: sleep_def emit_def)
qed

lemma e7_process_page:
  "\<exists>w'. process_page E7 (Suc fuel) (events_page c n p [event7]) w = Some (Inr (), w')"
proof -
  from e7_process_event [of fuel w]
  obtain w1 where "process_event E7 (Suc fuel) event7 w = Some (Inr (), w1)" by blast
  then show ?thesis
    by (simp add: process_page_def loop_bind_def lift_def of_result_def ret_def)
qed

lemma e7_first_start: "\<exists>w'. first_start E7 w = (Inr JNull, w')"
  by (simp add: first_start_def last_event_load_date_def pd_read_sql_def io_bind_def ret_def Let_def)



section \<open>The early return and the refresh of the views\<close>

lemma first_start_trace:
  assumes "first_start E w = (r, w1)"
  shows "\<exists>q. w1 = w\<lparr>trace := trace w @ [ReadSql q]\<rparr>"
  using assms
  by (auto simp: first_start_def last_event_load_date_def pd_read_sql_def io_bind_def ret_def
                 raise_def of_result_def Let_def
           split: sum.splits if_splits json.splits list.splits)

lemma get_events_trace:
  assumes "get_events E start page w1 = (Inr events, w2)"
  shows "\<exists>params. w2 = w1\<lparr>trace := trace w1 @ [HttpGet (events_path E) params]\<rparr>"
  using assms
  by (auto simp: get_events_def Eventbrite_get_events_def http_get_def sleep_def emit_def
                 io_bind_def ret_def raise_def of_result_def Let_def py_str_def events_path_def
           split: sum.splits if_splits)

lemma refresh_views_trace:
  assumes "refresh_views E w3 = (Inr (), w')"
  shows "w' = w3\<lparr>trace := trace w3 @
           [Execute (''REFRESH MATERIALIZED VIEW'' @ nl @ ''                 ''
                     @ pg_schema E @ ''.event_aggregates'') None, Commit,
            Execute (''REFRESH MATERIALIZED VIEW'' @ nl @ ''                 ''
                     @ pg_schema E @ ''.members_view'') None, Commit,
            Execute (''REFRESH MATERIALIZED VIEW'' @ nl @ ''                 ''
                     @ pg_schema E @ ''.participants'') None, Commit]\<rparr>"
  using assms
  by (auto simp: refresh_views_def MATERIALIZED_VIEWS_def refresh_view_def io_bind_def ret_def
                 run_query_result Let_def
           split: option.splits)

lemma run_after_first_page:
  assumes first: "first_start E w = (Inr start, w1)"
    and events: "get_events E start (JInt 1) w1 = (Inr events, w2)"
    and count: "subscript2 events ''pagination'' ''object_count'' = Inr (JInt k)"
  shows "run E fuel w =
           (if 0 < k
            then loop_bind (events_loop E fuel fuel start events) (\<lambda>_. lift (refresh_views E)) w2
            else Some (Inr (), w2))"
proof -
  have h: "has_events events = Inr (0 < k)"
    by (simp add: has_events_def count)
  show ?thesis
    unfolding run_def
    by (simp add: loop_bind_def lift_def first events h of_result_def ret_def del: One_nat_def)
qed

text \<open>
  Claim C8. Let the load date be read and the first page of events be fetched without a
  fault, and let the page report \<open>k\<close> events in all. If \<open>k\<close> is not positive, \<open>run\<close>
  returns at once: all it has done is the query for the load date and the one request
  for page 1, so no event is processed and no view is refreshed. If \<open>k\<close> is positive,
  \<open>run\<close> goes on to \<open>refresh_views\<close> as soon as the loop over the pages has ended without
  a fault; and whenever \<open>run\<close> returns without a fault, the loop has ended and the last
  six actions are the refresh of \<open>event_aggregates\<close>, \<open>members_view\<close> and \<open>participants\<close>,
  in this order, each accepted by the database and committed.
\<close>

theorem run_refreshes_views_unless_empty:
  assumes first: "first_start E w = (Inr start, w1)"
    and events: "get_events E start (JInt 1) w1 = (Inr events, w2)"
    and count: "subscript2 events ''pagination'' ''object_count'' = Inr (JInt k)"
  shows "(k \<le> 0 \<longrightarrow>
            (\<exists>q params. run E fuel w =
               Some (Inr (), w\<lparr>trace := trace w @ [ReadSql q, HttpGet (events_path E) params]\<rparr>)))
       \<and> (0 < k \<longrightarrow>
            (\<forall>w3. events_loop E fuel fuel start events w2 = Some (Inr (), w3) \<longrightarrow>
                    run E fuel w = Some (refresh_views E w3))
          \<and> (\<forall>w'. run E fuel w = Some (Inr (), w') \<longrightarrow>
                (\<exists>w3. events_loop E fuel fuel start events w2 = Some (Inr (), w3)
                     \<and> w' = w3\<lparr>trace := trace w3 @
                          [Execute (''REFRESH MATERIALIZED VIEW'' @ nl @ ''                 ''
                                    @ pg_schema E @ ''.event_aggregates'') None, Commit,
                           Execute (''REFRESH MATERIALIZED VIEW'' @ nl @ ''                 ''
                                    @ pg_schema E @ ''.members_view'') None, Commit,
                           Execute (''REFRESH MATERIALIZED VIEW'' @ nl @ ''                 ''
                                    @ pg_schema E @ ''.participants'') None, Commit]\<rparr>)))"
proof (intro conjI impI allI)
  assume k: "k \<le> 0"
  from first_start_trace [OF first] obtain q where w1: "w1 = w\<lparr>trace := trace w @ [ReadSql q]\<rparr>"
    by blast
  from get_events_trace [OF events] obtain params where
    w2: "w2 = w1\<lparr>trace := trace w1 @ [HttpGet (events_path E) params]\<rparr>" by blast
  have "run E fuel w = Some (Inr (), w2)"
    using run_after_first_page [OF first events count, of fuel] k by simp
  then have "run E fuel w =
      Some (Inr (), w\<lparr>trace := trace w @ [ReadSql q, HttpGet (events_path E) params]\<rparr>)"
    by (simp add: w1 w2)
  then show "\<exists>q params. run E fuel w =
      Some (Inr (), w\<lparr>trace := trace w @ [ReadSql q, HttpGet (events_path E) params]\<rparr>)"
    by blast
next
  fix w3
  assume k: "0 < k" and l: "events_loop E fuel fuel start events w2 = Some (Inr (), w3)"
  show "run E fuel w = Some (refresh_views E w3)"
    using run_after_first_page [OF first events count, of fuel] k l
    by (simp add: loop_bind_def lift_def)
next
  fix w'
  assume k: "0 < k" and r: "run E fuel w = Some (Inr (), w')"
  have "loop_bind (events_loop E fuel fuel start events) (\<lambda>_. lift (refresh_views E)) w2
          = Some (Inr (), w')"
    using run_after_first_page [OF first events count, of fuel] k r by simp
  then obtain w3 where l: "events_loop E fuel fuel start events w2 = Some (Inr (), w3)"
    and v: "refresh_views E w3 = (Inr (), w')"
    by (auto simp: loop_bind_def lift_def split: option.splits sum.splits prod.splits)
  from refresh_views_trace [OF v] l
  show "\<exists>w3. events_loop E fuel fuel start events w2 = Some (Inr (), w3)
           \<and> w' = w3\<lparr>trace := trace w3 @
                [Execute (''REFRESH MATERIALIZED VIEW'' @ nl @ ''                 ''
                          @ pg_schema E @ ''.event_aggregates'') None, Commit,
                 Execute (''REFRESH MATERIALIZED VIEW'' @ nl @ ''                 ''
                          @ pg_schema E @ ''.members_view'') None, Commit,
                 Execute (''REFRESH MATERIALIZED VIEW'' @ nl @ ''                 ''
                          @ pg_schema E @ ''.participants'') None, Commit]\<rparr>"
    by blast
qed


lemma refresh_views_accepted:
  assumes "cursor_execute E = (\<lambda>tr a. None)"
  shows "\<exists>w'. refresh_views E w = (Inr (), w')"
  by (simp add: refresh_views_def MATERIALIZED_VIEWS_def refresh_view_def io_bind_def ret_def
                run_query_result Let_def assms)

lemma E8_fields [simp]:
  "read_sql E8 = (\<lambda>tr sql. [])"
  "eventbrite_org E8 = ''42''"
  "events_path E8 = ''/organizers/42/events/''"
  "requests_get E8 = (\<lambda>tr path params. (200, events_page 0 1 1 []))"
  by (simp_all add: E8_def events_path_def)

lemma empty_db_first_start:
  assumes "read_sql E = (\<lambda>tr sql. [])"
  shows "\<exists>w'. first_start E w = (Inr JNull, w')"
  by (simp add: first_start_def last_event_load_date_def pd_read_sql_def io_bind_def ret_def
                Let_def assms)

theorem run_refreshes_views_unless_empty_witness:
  "(\<exists>q params. run E8 (Suc 0) w0 =
       Some (Inr (), w0\<lparr>trace := [ReadSql q, HttpGet ''/organizers/42/events/'' params]\<rparr>))
 \<and> (\<exists>w3. run E7 (Suc (Suc 0)) w0 =
       Some (Inr (), w3\<lparr>trace := trace w3 @
          [Execute (''REFRESH MATERIALIZED VIEW'' @ nl @ ''                 ''
                    @ ''public.event_aggregates'') None, Commit,
           Execute (''REFRESH MATERIALIZED VIEW'' @ nl @ ''                 ''
                    @ ''public.members_view'') None, Commit,
           Execute (''REFRESH MATERIALIZED VIEW'' @ nl @ ''                 ''
                    @ ''public.participants'') None, Commit]\<rparr>))"
proof
  from empty_db_first_start [of E8 w0]
  obtain w1 where first: "first_start E8 w0 = (Inr JNull, w1)" by auto
  have "\<exists>params. get_events E8 JNull (JInt 1) w1 =
            (Inr (events_page 0 1 1 []), w1\<lparr>trace := trace w1 @ [HttpGet (events_path E8) params]\<rparr>)
          \<and> map_of params ''page'' = Some (JInt 1)"
    by (rule get_events_page) simp_all
  then obtain w2 where events: "get_events E8 JNull (JInt 1) w1 = (Inr (events_page 0 1 1 []), w2)"
    by blast
  have count: "subscript2 (events_page 0 1 1 []) ''pagination'' ''object_count'' = Inr (JInt 0)"
    by (simp add: events_page_def subscript2_def)
  from run_refreshes_views_unless_empty [OF first events count, of "Suc 0"]
  show "\<exists>q params. run E8 (Suc 0) w0 =
       Some (Inr (), w0\<lparr>trace := [ReadSql q, HttpGet ''/organizers/42/events/'' params]\<rparr>)"
    by simp
next
  from e7_first_start [of w0]
  obtain w1 where first: "first_start E7 w0 = (Inr JNull, w1)" by blast
  have "\<exists>params. get_events E7 JNull (JInt 1) w1 =
            (Inr (events_page 2 2 1 [event7]), w1\<lparr>trace := trace w1 @ [HttpGet (events_path E7) params]\<rparr>)
          \<and> map_of params ''page'' = Some (JInt 1)"
    by (rule get_events_page) simp_all
  then obtain w2 where events: "get_events E7 JNull (JInt 1) w1 = (Inr (events_page 2 2 1 [event7]), w2)"
    by blast
  have count: "subscript2 (events_page 2 2 1 [event7]) ''pagination'' ''object_count'' = Inr (JInt 2)"
    by (simp add: events_page_def subscript2_def)
  have api: "\<And>tr params p. 1 \<le> p \<Longrightarrow> p \<le> 2 \<Longrightarrow> map_of params ''page'' = Some (JInt (int p)) \<Longrightarrow>
      requests_get E7 tr (events_path E7) params = (200, events_page 2 2 p [event7])"
    by simp
  have pages: "\<And>p w. 1 \<le> p \<Longrightarrow> p \<le> 2 \<Longrightarrow>
      \<exists>w'. process_page E7 (Suc (Suc 0)) (events_page 2 2 p [event7]) w = Some (Inr (), w')"
    by (rule e7_process_page)
  have c: "(0::int) < 2" by simp
  have n: "1 \<le> (2::nat)" "2 \<le> Suc (Suc 0)" by simp_all
  from run_pages [where evs = "\<lambda>p. [event7]", OF api pages first c n]
  obtain w3 where r: "run E7 (Suc (Suc 0)) w0 = Some (refresh_views E7 w3)" by blast
  from refresh_views_accepted [of E7 w3]
  obtain w4 where "refresh_views E7 w3 = (Inr (), w4)" by auto
  with r have fin: "run E7 (Suc (Suc 0)) w0 = Some (Inr (), w4)" by simp
  from run_refreshes_views_unless_empty [OF first events count, of "Suc (Suc 0)"] fin
  show "\<exists>w3. run E7 (Suc (Suc 0)) w0 =
       Some (Inr (), w3\<lparr>trace := trace w3 @
          [Execute (''REFRESH MATERIALIZED VIEW'' @ nl @ ''                 ''
                    @ ''public.event_aggregates'') None, Commit,
           Execute (''REFRESH MATERIALIZED VIEW'' @ nl @ ''                 ''
                    @ ''public.members_view'') None, Commit,
           Execute (''REFRESH MATERIALIZED VIEW'' @ nl @ ''                 ''
                    @ ''public.participants'') None, Commit]\<rparr>)"
    by auto
qed

section \<open>The venue of an event\<close>











lemma E9_fields [simp]:
  "pg_schema E9 = ''public''"
  "eventbrite_oauth E9 = ''secret''"
  "read_sql E9 = (\<lambda>tr sql. [])"
  "str_of E9 JNull = ''None''"
  "requests_get E9 tr ''/venues/v1'' params = (200, venue3)"
  by (simp_all add: E9_def)


end
